theory Spec2Isabelle
  imports Main "HOL-Library.Sublist"
begin

section \<open>FailWhale: a shallow embedding of \<open>main.js\<close>\<close>

text \<open>
  The development follows \<open>src/main.js\<close>. The module-level variables \<open>sources\<close> and
  \<open>workflowStates\<close> become the two fields of a state record that every operation takes and
  returns. What the outside world answers (HTTP responses, rejected promises, the clock) is
  an explicit argument of the function that consumes it, and what the program does to the
  outside world (HTTP requests, timers, popup windows, writing the data file) is a list of
  events in the order the code performs them.
\<close>

subsection \<open>Data model\<close>

text \<open>An element of \<open>sources\<close>: \<open>{ url, added }\<close> (line 517).\<close>

record source =
  url :: string
  added :: string

text \<open>The object returned by \<open>extractRepoInfo\<close> (line 184).\<close>

record repo_info =
  owner :: string
  repo :: string

text \<open>
  One element of \<open>workflow_runs\<close> in the body of the GitHub answer. The code reads
  \<open>id\<close>, \<open>status\<close> and \<open>conclusion\<close>; \<open>conclusion\<close> is \<open>null\<close> while a run is not finished.
\<close>

record workflow_run =
  run_id :: int
  run_status :: string
  run_conclusion :: "string option"
  created_at :: string

text \<open>
  A value of the \<open>workflowStates\<close> map (lines 276-280, 293-298, 309-313). The property
  \<open>notifiedStart\<close> is only ever written as \<open>true\<close> (line 297); \<open>False\<close> stands for its absence.
\<close>

record workflow_state =
  latestRunId :: int
  status :: string
  conclusion :: "string option"
  notifiedStart :: bool

text \<open>The object returned by \<open>getRandomGif\<close> (lines 26-30, 35).\<close>

record gif_data =
  gif_url :: string
  width :: int
  height :: int

text \<open>
  A thrown JavaScript value. Everything the code catches is an \<open>Error\<close> object: the two
  \<open>new Error(...)\<close> of lines 208 and 210, the \<open>TypeError\<close> or \<open>AbortError\<close> of a rejected
  \<open>fetch\<close>, the \<open>SyntaxError\<close> of a rejected \<open>response.json()\<close>. The handler of line 217 reads
  \<open>code\<close> (absent on most errors), \<open>name\<close> and \<open>message\<close>.
\<close>

record js_error =
  code :: "string option"
  name :: string
  message :: string

text \<open>
  How a call or an awaited promise completes: with a value, or with a thrown error (a
  rejected promise throws at its \<open>await\<close>).
\<close>

datatype 'a outcome = Returns 'a | Throws js_error

text \<open>
  An HTTP response as the code reads it: \<open>status\<close>, \<open>ok\<close> (which the Fetch standard defines
  as a status from 200 to 299) and the promise returned by \<open>json()\<close>.
\<close>

record 'b http_response =
  resp_status :: nat
  resp_json :: "'b outcome"

definition ok :: "'b http_response \<Rightarrow> bool" where
  "ok r = (200 \<le> resp_status r \<and> resp_status r \<le> 299)"

text \<open>
  The parsed body of the GitHub answer, as far as line 214 looks at it: \<open>null\<close> (reading a
  property of it throws), or an object whose \<open>workflow_runs\<close> is absent or a list of runs.
\<close>

datatype github_json = GithubNull | GithubData "workflow_run list option"

text \<open>
  The parsed body of the Giphy answer, as far as lines 22-23 look at it: no \<open>data\<close> property
  (reading \<open>data.images\<close> throws), or a \<open>data\<close> whose \<open>images?.downsized_medium\<close> is absent or
  an image. \<open>img_width\<close> and \<open>img_height\<close> are what \<open>parseInt(_, 10)\<close> makes of the two
  properties, \<open>None\<close> for \<open>NaN\<close>.
\<close>

record giphy_image =
  img_url :: string
  img_width :: "int option"
  img_height :: "int option"

datatype giphy_json = GiphyNoData | GiphyData "giphy_image option"

text \<open>The module state: \<open>sources\<close> (line 10) and \<open>workflowStates\<close> (line 11).\<close>

record app_state =
  sources :: "source list"
  workflowStates :: "string \<rightharpoonup> workflow_state"

text \<open>What the program does to its environment, in program order.\<close>

datatype event =
    ProbeNetwork                \<comment> \<open>the \<open>HEAD\<close> request of line 243\<close>
  | FetchAttempt string nat     \<comment> \<open>the \<open>fetch\<close> of line 196: request URL and attempt number\<close>
  | Backoff nat nat             \<comment> \<open>the timer of line 227: attempt number and delay in ms\<close>
  | GetRandomGif string         \<comment> \<open>a call of \<open>getRandomGif(tag)\<close>\<close>
  | CreateGifWindow gif_data    \<comment> \<open>a call of \<open>createGifWindow(gifData)\<close>\<close>
  | SaveSources "source list"   \<comment> \<open>a call of \<open>saveSources()\<close> with the list it writes\<close>

subsection \<open>Strings\<close>

text \<open>\<open>String.prototype.includes\<close>: the pattern occurs somewhere in the string.\<close>

fun js_includes :: "string \<Rightarrow> string \<Rightarrow> bool" where
  "js_includes [] p = (p = [])"
| "js_includes (c # cs) p = (prefix p (c # cs) \<or> js_includes cs p)"

text \<open>Decimal rendering of a number inside a template literal (lines 208, 210).\<close>

definition digit_char :: "nat \<Rightarrow> char" where
  "digit_char n = ''0123456789'' ! n"

function show_nat :: "nat \<Rightarrow> string" where
  "show_nat n = (if n < 10 then [digit_char n] else show_nat (n div 10) @ [digit_char (n mod 10)])"
  by pat_completeness auto
termination
  by (relation "measure id") auto

declare show_nat.simps [simp del]

subsection \<open>Repository resolver: \<open>extractRepoInfo\<close> (lines 181-187)\<close>

text \<open>
  The regular expression is \<open>/github\.com\/([^\/]+)\/([^\/]+)/\<close>, used with \<open>String.match\<close> and
  no anchor. \<open>regex_at\<close> is the attempt to match with the match starting at the head of
  the string: the literal \<open>github.com/\<close>, then the first group, a slash, the second group.
  A group \<open>[^\/]+\<close> is greedy, so it takes the longest run of characters other than a slash;
  giving characters back cannot help, since what follows the first group must be a slash
  and what follows the second group is the end of the pattern. Each group needs at least
  one character.
\<close>

definition nonslash :: "char \<Rightarrow> bool" where
  "nonslash c = (c \<noteq> CHR ''/'')"

fun strip_literal :: "string \<Rightarrow> string \<Rightarrow> string option" where
  "strip_literal [] s = Some s"
| "strip_literal (p # ps) [] = None"
| "strip_literal (p # ps) (c # cs) = (if p = c then strip_literal ps cs else None)"

definition regex_at :: "string \<Rightarrow> repo_info option" where
  "regex_at s =
     (case strip_literal ''github.com/'' s of
        None \<Rightarrow> None
      | Some r \<Rightarrow>
          (let g1 = takeWhile nonslash r in
           if g1 = [] then None
           else (case dropWhile nonslash r of
                   [] \<Rightarrow> None
                 | _ # r' \<Rightarrow>
                     (let g2 = takeWhile nonslash r' in
                      if g2 = [] then None
                      else Some \<lparr>owner = g1, repo = g2\<rparr>))))"

text \<open>
  \<open>String.match\<close> tries every start position from the left and returns the first match;
  \<open>null\<close> (here \<open>None\<close>) when no position matches.
\<close>

fun extractRepoInfo :: "string \<Rightarrow> repo_info option" where
  "extractRepoInfo [] = regex_at []"
| "extractRepoInfo (c # cs) =
     (case regex_at (c # cs) of
        Some m \<Rightarrow> Some m
      | None \<Rightarrow> extractRepoInfo cs)"

text \<open>The key of the state map: \<open>`${repoInfo.owner}/${repoInfo.repo}`\<close> (lines 271, 530).\<close>

definition sourceKey :: "repo_info \<Rightarrow> string" where
  "sourceKey i = owner i @ ''/'' @ repo i"

subsection \<open>Image fetch: \<open>getRandomGif\<close> (lines 16-36)\<close>

definition new_Error :: "string \<Rightarrow> js_error" where
  "new_Error msg = \<lparr>code = None, name = ''Error'', message = msg\<rparr>"

definition new_TypeError :: "string \<Rightarrow> js_error" where
  "new_TypeError msg = \<lparr>code = None, name = ''TypeError'', message = msg\<rparr>"

text \<open>\<open>parseInt(x, 10) || d\<close>: \<open>NaN\<close> and \<open>0\<close> are falsy.\<close>

definition parsed_or :: "int option \<Rightarrow> int \<Rightarrow> int" where
  "parsed_or v d = (case v of None \<Rightarrow> d | Some n \<Rightarrow> if n = 0 then d else n)"

text \<open>
  The \<open>try\<close> block, lines 18-31: \<open>Returns (Some g)\<close> is the \<open>return\<close> of line 26,
  \<open>Returns None\<close> is leaving the block at its end, \<open>Throws\<close> is an exception raised inside it.
\<close>

definition gif_try :: "giphy_json http_response outcome \<Rightarrow> gif_data option outcome" where
  "gif_try answer =
     (case answer of
        Throws err \<Rightarrow> Throws err
      | Returns res \<Rightarrow>
          if \<not> ok res then Throws (new_Error (''HTTP error '' @ show_nat (resp_status res)))
          else (case resp_json res of
                  Throws err \<Rightarrow> Throws err
                | Returns GiphyNoData \<Rightarrow>
                    Throws (new_TypeError ''Cannot read properties of undefined'')
                | Returns (GiphyData None) \<Rightarrow> Returns None
                | Returns (GiphyData (Some gif)) \<Rightarrow>
                    Returns (Some \<lparr>gif_url = img_url gif,
                                   width = parsed_or (img_width gif) 400,
                                   height = parsed_or (img_height gif) 300\<rparr>)))"

text \<open>
  The \<open>catch\<close> clause only logs, and control reaches line 35 both after it and after a
  \<open>try\<close> block that did not return. The tag is part of the request only.
\<close>

definition no_gif :: gif_data where
  "no_gif = \<lparr>gif_url = [], width = 400, height = 300\<rparr>"

definition getRandomGif :: "string \<Rightarrow> giphy_json http_response outcome \<Rightarrow> gif_data outcome" where
  "getRandomGif tag answer =
     (case gif_try answer of
        Returns (Some g) \<Rightarrow> Returns g
      | Returns None \<Rightarrow> Returns no_gif
      | Throws err \<Rightarrow> Returns no_gif)"

subsection \<open>CI status client: \<open>fetchWorkflowRuns\<close> (lines 189-235)\<close>

text \<open>The \<open>try\<close> block of one attempt, lines 192-214, given what the \<open>fetch\<close> answers.\<close>

definition fetch_try :: "github_json http_response outcome \<Rightarrow> workflow_run list outcome" where
  "fetch_try answer =
     (case answer of
        Throws err \<Rightarrow> Throws err
      | Returns response \<Rightarrow>
          if \<not> ok response then
            (if resp_status response = 403
             then Throws (new_Error (''GitHub API rate limited: '' @ show_nat (resp_status response)))
             else Throws (new_Error (''GitHub API error: '' @ show_nat (resp_status response))))
          else (case resp_json response of
                  Throws err \<Rightarrow> Throws err
                | Returns GithubNull \<Rightarrow>
                    Throws (new_TypeError ''Cannot read properties of null'')
                | Returns (GithubData None) \<Rightarrow> Returns []
                | Returns (GithubData (Some runs)) \<Rightarrow> Returns runs))"

text \<open>Line 217.\<close>

definition isNetworkError :: "js_error \<Rightarrow> bool" where
  "isNetworkError err =
     (code err = Some ''ENOTFOUND'' \<or> name err = ''AbortError'' \<or>
      js_includes (message err) ''fetch failed'')"

text \<open>
  Line 225: \<open>Math.min(1000 * Math.pow(2, attempt - 1), 30000)\<close>. The loop only ever has
  \<open>attempt \<ge> 1\<close>, where the subtraction on \<open>nat\<close> is the one of the code.
\<close>

definition backoff_delay :: "nat \<Rightarrow> nat" where
  "backoff_delay attempt = min (1000 * 2 ^ (attempt - 1)) 30000"

definition runs_url :: "string \<Rightarrow> string \<Rightarrow> string" where
  "runs_url own rep = ''https://api.github.com/repos/'' @ own @ ''/'' @ rep @ ''/actions/runs''"

text \<open>
  The \<open>for\<close> loop of line 190, from the attempt number \<open>attempt\<close> on. \<open>answers n\<close> is what the
  \<open>fetch\<close> of attempt \<open>n\<close> answers. The result is how the function completes and what it
  did. Every \<open>throw\<close> of the source is inside the \<open>try\<close> block, and the \<open>catch\<close> clause
  (lines 216-232) either returns or lets the loop go on.
\<close>

function fetch_loop ::
  "(nat \<Rightarrow> github_json http_response outcome) \<Rightarrow> string \<Rightarrow> string \<Rightarrow> nat \<Rightarrow> nat \<Rightarrow>
     workflow_run list outcome \<times> event list" where
  "fetch_loop answers own rep retries attempt =
     (if attempt \<le> retries then
        (case fetch_try (answers attempt) of
           Returns runs \<Rightarrow> (Returns runs, [FetchAttempt (runs_url own rep) attempt])
         | Throws err \<Rightarrow>
             if attempt = retries then (Returns [], [FetchAttempt (runs_url own rep) attempt])
             else if isNetworkError err then
               (case fetch_loop answers own rep retries (attempt + 1) of
                  (r, evs) \<Rightarrow>
                    (r, FetchAttempt (runs_url own rep) attempt
                          # Backoff attempt (backoff_delay attempt) # evs))
             else (Returns [], [FetchAttempt (runs_url own rep) attempt]))
      else (Returns [], []))"
  by pat_completeness auto
termination
  by (relation "measure (\<lambda>(answers, own, rep, retries, attempt). Suc retries - attempt)") auto

declare fetch_loop.simps [simp del]

definition fetchWorkflowRuns ::
  "(nat \<Rightarrow> github_json http_response outcome) \<Rightarrow> string \<Rightarrow> string \<Rightarrow> nat \<Rightarrow>
     workflow_run list outcome \<times> event list" where
  "fetchWorkflowRuns answers own rep retries = fetch_loop answers own rep retries 1"

subsection \<open>Reachability probe: \<open>isNetworkAvailable\<close> (lines 238-253)\<close>

definition isNetworkAvailable :: "unit http_response outcome \<Rightarrow> bool" where
  "isNetworkAvailable answer =
     (case answer of Returns response \<Rightarrow> resp_status response < 500 | Throws err \<Rightarrow> False)"

subsection \<open>Workflow monitoring: \<open>checkWorkflows\<close> (lines 256-316)\<close>

text \<open>The three object literals stored in the map (lines 276-280, 293-298, 309-313).\<close>

definition state_of_run :: "workflow_run \<Rightarrow> workflow_state" where
  "state_of_run r =
     \<lparr>latestRunId = run_id r, status = run_status r, conclusion = run_conclusion r,
      notifiedStart = False\<rparr>"

definition started_state_of_run :: "workflow_run \<Rightarrow> workflow_state" where
  "started_state_of_run r =
     \<lparr>latestRunId = run_id r, status = run_status r, conclusion = run_conclusion r,
      notifiedStart = True\<rparr>"

text \<open>
  Lines 288-291 and 304-307: \<open>await getRandomGif(tag)\<close>, then \<open>createGifWindow\<close> when
  \<open>gifData.url\<close> is truthy, that is, a string that is not empty. A throwing \<open>getRandomGif\<close>
  would leave \<open>checkWorkflows\<close> at the \<open>await\<close>.
\<close>

definition notify :: "string \<Rightarrow> giphy_json http_response outcome \<Rightarrow> unit outcome \<times> event list" where
  "notify tag giphy =
     (case getRandomGif tag giphy of
        Throws err \<Rightarrow> (Throws err, [GetRandomGif tag])
      | Returns gifData \<Rightarrow>
          (Returns (),
           GetRandomGif tag # (if gif_url gifData \<noteq> [] then [CreateGifWindow gifData] else [])))"

text \<open>
  Lines 272-314 of the loop body: the comparison of \<open>latestRun\<close> with the state stored under
  \<open>key\<close>. \<open>giphy\<close> is what the Giphy request of this iteration answers, if one is made.
\<close>

definition trackLatestRun ::
  "giphy_json http_response outcome \<Rightarrow> string \<Rightarrow> workflow_run \<Rightarrow> (string \<rightharpoonup> workflow_state) \<Rightarrow>
     unit outcome \<times> (string \<rightharpoonup> workflow_state) \<times> event list" where
  "trackLatestRun giphy key latestRun ws =
     (case ws key of
        None \<Rightarrow> (Returns (), ws(key \<mapsto> state_of_run latestRun), [])
      | Some previousState \<Rightarrow>
          if run_id latestRun \<noteq> latestRunId previousState then
            (if run_status latestRun \<noteq> ''completed'' then
               (case notify ''lets get started'' giphy of
                  (Throws err, evs) \<Rightarrow> (Throws err, ws, evs)
                | (Returns u, evs) \<Rightarrow>
                    (Returns (), ws(key \<mapsto> started_state_of_run latestRun), evs))
             else (Returns (), ws, []))
          else if status previousState \<noteq> ''completed'' \<and> run_status latestRun = ''completed'' then
            (let tag = (if run_conclusion latestRun = Some ''success'' then ''success''
                        else ''failure'')
             in case notify tag giphy of
                  (Throws err, evs) \<Rightarrow> (Throws err, ws, evs)
                | (Returns u, evs) \<Rightarrow> (Returns (), ws(key \<mapsto> state_of_run latestRun), evs))
          else (Returns (), ws, []))"

text \<open>
  One iteration of the loop of line 263, lines 264-314. \<open>github n\<close> is the answer to the
  \<open>n\<close>-th attempt of this iteration's \<open>fetchWorkflowRuns\<close>, called with the default
  \<open>retries = 3\<close>.
\<close>

definition checkSource ::
  "(nat \<Rightarrow> github_json http_response outcome) \<Rightarrow> giphy_json http_response outcome \<Rightarrow> source \<Rightarrow>
     (string \<rightharpoonup> workflow_state) \<Rightarrow> unit outcome \<times> (string \<rightharpoonup> workflow_state) \<times> event list" where
  "checkSource github giphy src ws =
     (case extractRepoInfo (url src) of
        None \<Rightarrow> (Returns (), ws, [])
      | Some repoInfo \<Rightarrow>
          (case fetchWorkflowRuns github (owner repoInfo) (repo repoInfo) 3 of
             (Throws err, evs) \<Rightarrow> (Throws err, ws, evs)
           | (Returns [], evs) \<Rightarrow> (Returns (), ws, evs)
           | (Returns (latestRun # older), evs) \<Rightarrow>
               (case trackLatestRun giphy (sourceKey repoInfo) latestRun ws of
                  (r, ws', evs') \<Rightarrow> (r, ws', evs @ evs'))))"

text \<open>
  What the environment answers during one cycle: to the probe, to each attempt of the
  fetch made for the source at each position of the list, and to the image request made
  for the source at each position.
\<close>

record cycle_env =
  probe_answer :: "unit http_response outcome"
  github_answers :: "nat \<Rightarrow> nat \<Rightarrow> github_json http_response outcome"
  giphy_answers :: "nat \<Rightarrow> giphy_json http_response outcome"

text \<open>The loop of line 263 from position \<open>i\<close> on; an exception ends it.\<close>

fun check_loop ::
  "cycle_env \<Rightarrow> nat \<Rightarrow> source list \<Rightarrow> (string \<rightharpoonup> workflow_state) \<Rightarrow>
     unit outcome \<times> (string \<rightharpoonup> workflow_state) \<times> event list" where
  "check_loop env i [] ws = (Returns (), ws, [])"
| "check_loop env i (src # rest) ws =
     (case checkSource (github_answers env i) (giphy_answers env i) src ws of
        (Throws err, ws', evs) \<Rightarrow> (Throws err, ws', evs)
      | (Returns u, ws', evs) \<Rightarrow>
          (case check_loop env (Suc i) rest ws' of
             (r, ws'', evs') \<Rightarrow> (r, ws'', evs @ evs')))"

definition checkWorkflows :: "cycle_env \<Rightarrow> app_state \<Rightarrow> unit outcome \<times> app_state \<times> event list" where
  "checkWorkflows env st =
     (if \<not> isNetworkAvailable (probe_answer env) then (Returns (), st, [ProbeNetwork])
      else (case check_loop env 0 (sources st) (workflowStates st) of
              (r, ws, evs) \<Rightarrow> (r, st\<lparr>workflowStates := ws\<rparr>, ProbeNetwork # evs)))"

subsection \<open>IPC handlers (lines 503-535)\<close>

text \<open>
  \<open>add-source\<close>, lines 505-520. \<open>now\<close> is \<open>new Date().toISOString()\<close>. A handler that throws
  has not touched the state.
\<close>

definition add_source :: "string \<Rightarrow> string \<Rightarrow> app_state \<Rightarrow> bool outcome \<times> app_state \<times> event list" where
  "add_source u now st =
     (case extractRepoInfo u of
        None \<Rightarrow> (Throws (new_Error ''Invalid GitHub URL''), st, [])
      | Some repoInfo \<Rightarrow>
          if list_ex (\<lambda>s. url s = u) (sources st)
          then (Throws (new_Error ''Source already exists''), st, [])
          else (let st' = st\<lparr>sources := sources st @ [\<lparr>url = u, added = now\<rparr>]\<rparr>
                in (Returns True, st', [SaveSources (sources st')])))"

text \<open>
  \<open>remove-source\<close>, lines 522-535: \<open>splice(index, 1)\<close> takes the element at \<open>index\<close> out of
  the list, line 531 deletes the key of the removed source from the map.
\<close>

definition remove_source :: "int \<Rightarrow> app_state \<Rightarrow> bool outcome \<times> app_state \<times> event list" where
  "remove_source index st =
     (if 0 \<le> index \<and> index < int (length (sources st)) then
        (let removed = sources st ! nat index;
             srcs = take (nat index) (sources st) @ drop (Suc (nat index)) (sources st);
             ws = (case extractRepoInfo (url removed) of
                     Some repoInfo \<Rightarrow> (workflowStates st)(sourceKey repoInfo := None)
                   | None \<Rightarrow> workflowStates st)
         in (Returns True, \<lparr>sources = srcs, workflowStates = ws\<rparr>, [SaveSources srcs]))
      else (Returns True, st, []))"

subsection \<open>Reading a list of events\<close>

text \<open>
  The tags with which the notification path was entered (the calls of \<open>getRandomGif\<close>),
  and the popup windows that were opened.
\<close>

fun notifications :: "event list \<Rightarrow> string list" where
  "notifications [] = []"
| "notifications (GetRandomGif tag # evs) = tag # notifications evs"
| "notifications (e # evs) = notifications evs"

fun popups :: "event list \<Rightarrow> gif_data list" where
  "popups [] = []"
| "popups (CreateGifWindow g # evs) = g # popups evs"
| "popups (e # evs) = popups evs"

text \<open>The attempt numbers of the requests made, in order.\<close>

fun attempts :: "event list \<Rightarrow> nat list" where
  "attempts [] = []"
| "attempts (FetchAttempt u n # evs) = n # attempts evs"
| "attempts (e # evs) = attempts evs"

subsection \<open>Concrete values\<close>

text \<open>
  Inputs at which the properties below are evaluated: a source, runs, and answers of the
  two HTTP services (the successful ones are those of the mock in \<open>tests/main.test.js\<close>).
\<close>

definition a_source :: source where
  "a_source = \<lparr>url = ''https://github.com/a/b'', added = ''2023-01-01T00:00:00.000Z''\<rparr>"

definition a_run :: "int \<Rightarrow> string \<Rightarrow> string option \<Rightarrow> workflow_run" where
  "a_run i st c =
     \<lparr>run_id = i, run_status = st, run_conclusion = c, created_at = ''2023-01-01T00:00:00Z''\<rparr>"

definition runs_answer :: "workflow_run list \<Rightarrow> github_json http_response outcome" where
  "runs_answer runs = Returns \<lparr>resp_status = 200, resp_json = Returns (GithubData (Some runs))\<rparr>"

definition status_answer :: "nat \<Rightarrow> github_json http_response outcome" where
  "status_answer n = Returns \<lparr>resp_status = n, resp_json = Returns (GithubData None)\<rparr>"

definition fetch_failed :: js_error where
  "fetch_failed = new_TypeError ''fetch failed''"

definition gif_answer :: "giphy_json http_response outcome" where
  "gif_answer =
     Returns \<lparr>resp_status = 200,
              resp_json = Returns (GiphyData (Some \<lparr>img_url = ''https://media.giphy.com/test.gif'',
                                                     img_width = Some 400,
                                                     img_height = Some 300\<rparr>))\<rparr>"

definition test_gif :: gif_data where
  "test_gif = \<lparr>gif_url = ''https://media.giphy.com/test.gif'', width = 400, height = 300\<rparr>"

text \<open>An answer to every attempt: the same one, or the listed ones and then a last one.\<close>

definition always :: "'a \<Rightarrow> nat \<Rightarrow> 'a" where
  "always a n = a"

definition in_turn :: "'a list \<Rightarrow> 'a \<Rightarrow> nat \<Rightarrow> 'a" where
  "in_turn xs d n = (if 1 \<le> n \<and> n \<le> length xs then xs ! (n - 1) else d)"

text \<open>
  A cycle in which the probe is answered with status 200, every attempt of every source
  with the same answer, and every image request with the same answer.
\<close>

definition a_cycle ::
  "github_json http_response outcome \<Rightarrow> giphy_json http_response outcome \<Rightarrow> cycle_env" where
  "a_cycle github giphy =
     \<lparr>probe_answer = Returns \<lparr>resp_status = 200, resp_json = Returns ()\<rparr>,
      github_answers = always (always github),
      giphy_answers = always giphy\<rparr>"

section \<open>Properties\<close>

subsection \<open>Auxiliary facts\<close>

lemma notifications_append: "notifications (xs @ ys) = notifications xs @ notifications ys"
  by (induction xs rule: notifications.induct) simp_all

lemma popups_append: "popups (xs @ ys) = popups xs @ popups ys"
  by (induction xs rule: popups.induct) simp_all

lemma getRandomGif_returns: "\<exists>g. getRandomGif tag a = Returns g"
  by (simp add: getRandomGif_def split: outcome.split option.split)

lemma notify_returns:
  "getRandomGif tag a = Returns g \<Longrightarrow>
   notify tag a =
     (Returns (), GetRandomGif tag # (if gif_url g \<noteq> [] then [CreateGifWindow g] else []))"
  by (simp add: notify_def)

text \<open>The loop of the status client always completes with a \<open>return\<close>.\<close>

lemma fetch_loop_returns:
  "\<exists>runs. fst (fetch_loop answers own rep retries attempt) = Returns runs"
proof (induction answers own rep retries attempt rule: fetch_loop.induct)
  case (1 answers own rep retries attempt)
  show ?case
  proof (cases "fetch_try (answers attempt)")
    case (Returns runs)
    then show ?thesis by (subst fetch_loop.simps) simp
  next
    case (Throws err)
    show ?thesis
    proof (cases "attempt \<le> retries \<and> attempt \<noteq> retries \<and> isNetworkError err")
      case True
      with 1 Throws obtain runs
        where "fst (fetch_loop answers own rep retries (attempt + 1)) = Returns runs"
        by blast
      with True Throws show ?thesis
        by (subst fetch_loop.simps) (auto split: prod.split)
    next
      case False
      with Throws show ?thesis by (subst fetch_loop.simps) auto
    qed
  qed
qed

text \<open>The status client neither asks for an image nor opens a window.\<close>

lemma fetch_loop_quiet:
  "notifications (snd (fetch_loop answers own rep retries attempt)) = [] \<and>
   popups (snd (fetch_loop answers own rep retries attempt)) = []"
proof (induction answers own rep retries attempt rule: fetch_loop.induct)
  case (1 answers own rep retries attempt)
  show ?case
  proof (cases "fetch_try (answers attempt)")
    case (Returns runs)
    then show ?thesis by (subst (1 2) fetch_loop.simps) simp
  next
    case (Throws err)
    show ?thesis
    proof (cases "attempt \<le> retries \<and> attempt \<noteq> retries \<and> isNetworkError err")
      case True
      with 1 Throws
      have "notifications (snd (fetch_loop answers own rep retries (attempt + 1))) = [] \<and>
            popups (snd (fetch_loop answers own rep retries (attempt + 1))) = []"
        by blast
      with True Throws show ?thesis
        by (subst (1 2) fetch_loop.simps) (auto split: prod.split)
    next
      case False
      with Throws show ?thesis by (subst (1 2) fetch_loop.simps) auto
    qed
  qed
qed

lemma fetchWorkflowRuns_quiet:
  "fetchWorkflowRuns answers own rep retries = (r, evs) \<Longrightarrow>
   notifications evs = [] \<and> popups evs = []"
  using fetch_loop_quiet [of answers own rep retries 1] by (simp add: fetchWorkflowRuns_def)

text \<open>The four cases of the comparison in \<open>checkWorkflows\<close>, and the loop body around it.\<close>

lemma track_first_sight:
  "ws key = None \<Longrightarrow> trackLatestRun giphy key R ws = (Returns (), ws(key \<mapsto> state_of_run R), [])"
  by (simp add: trackLatestRun_def)

lemma track_superseded_completed:
  "ws key = Some P \<Longrightarrow> run_id R \<noteq> latestRunId P \<Longrightarrow> run_status R = ''completed'' \<Longrightarrow>
   trackLatestRun giphy key R ws = (Returns (), ws, [])"
  by (simp add: trackLatestRun_def)

lemma track_started:
  "ws key = Some P \<Longrightarrow> run_id R \<noteq> latestRunId P \<Longrightarrow> run_status R \<noteq> ''completed'' \<Longrightarrow>
   getRandomGif ''lets get started'' giphy = Returns g \<Longrightarrow>
   trackLatestRun giphy key R ws =
     (Returns (), ws(key \<mapsto> started_state_of_run R),
      GetRandomGif ''lets get started'' # (if gif_url g \<noteq> [] then [CreateGifWindow g] else []))"
  by (simp add: trackLatestRun_def notify_returns)

lemma track_finished:
  "ws key = Some P \<Longrightarrow> run_id R = latestRunId P \<Longrightarrow> status P \<noteq> ''completed'' \<Longrightarrow>
   run_status R = ''completed'' \<Longrightarrow>
   tag = (if run_conclusion R = Some ''success'' then ''success'' else ''failure'') \<Longrightarrow>
   getRandomGif tag giphy = Returns g \<Longrightarrow>
   trackLatestRun giphy key R ws =
     (Returns (), ws(key \<mapsto> state_of_run R),
      GetRandomGif tag # (if gif_url g \<noteq> [] then [CreateGifWindow g] else []))"
  by (simp add: trackLatestRun_def notify_returns)

lemma track_unchanged:
  "ws key = Some P \<Longrightarrow> run_id R = latestRunId P \<Longrightarrow>
   status P = ''completed'' \<or> run_status R \<noteq> ''completed'' \<Longrightarrow>
   trackLatestRun giphy key R ws = (Returns (), ws, [])"
  by (auto simp add: trackLatestRun_def)

lemma checkSource_observed:
  "extractRepoInfo (url src) = Some i \<Longrightarrow>
   fetchWorkflowRuns github (owner i) (repo i) 3 = (Returns (R # older), evs) \<Longrightarrow>
   trackLatestRun giphy (sourceKey i) R ws = (r, ws', evs') \<Longrightarrow>
   checkSource github giphy src ws = (r, ws', evs @ evs')"
  by (simp add: checkSource_def)

text \<open>
  An iteration writes at most the record under the key of its source, and never deletes
  a record.
\<close>

lemma notify_cases:
  "\<exists>evs. notify tag giphy = (Returns (), evs)"
  using getRandomGif_returns [of tag giphy] by (auto simp add: notify_def)

lemma trackLatestRun_frame:
  "k \<noteq> key \<Longrightarrow> fst (snd (trackLatestRun giphy key R ws)) k = ws k"
  using notify_cases [of "''lets get started''" giphy] notify_cases [of "''success''" giphy]
    notify_cases [of "''failure''" giphy]
  by (auto simp add: trackLatestRun_def Let_def split: option.split)

lemma trackLatestRun_keeps:
  "ws key \<noteq> None \<Longrightarrow> fst (snd (trackLatestRun giphy key R ws)) key \<noteq> None"
  using notify_cases [of "''lets get started''" giphy] notify_cases [of "''success''" giphy]
    notify_cases [of "''failure''" giphy]
  by (auto simp add: trackLatestRun_def Let_def split: option.split)

lemma checkSource_unresolved:
  "extractRepoInfo (url src) = None \<Longrightarrow> checkSource github giphy src ws = (Returns (), ws, [])"
  by (simp add: checkSource_def)

lemma checkSource_no_runs:
  "extractRepoInfo (url src) = Some i \<Longrightarrow>
   fetchWorkflowRuns github (owner i) (repo i) 3 = (Returns [], evs) \<Longrightarrow>
   checkSource github giphy src ws = (Returns (), ws, evs)"
  by (simp add: checkSource_def)

lemma checkSource_map:
  assumes "extractRepoInfo (url src) = Some i"
  shows "fst (snd (checkSource github giphy src ws)) = ws \<or>
         (\<exists>R. fst (snd (checkSource github giphy src ws)) =
                 fst (snd (trackLatestRun giphy (sourceKey i) R ws)))"
proof -
  obtain r evs where f: "fetchWorkflowRuns github (owner i) (repo i) 3 = (r, evs)"
    by (cases "fetchWorkflowRuns github (owner i) (repo i) 3")
  show ?thesis
  proof (cases r)
    case (Throws err)
    with assms f show ?thesis by (simp add: checkSource_def)
  next
    case (Returns runs)
    show ?thesis
    proof (cases runs)
      case Nil
      with assms f Returns show ?thesis by (simp add: checkSource_def)
    next
      case (Cons latestRun older)
      with assms f Returns
      have "fst (snd (checkSource github giphy src ws)) =
          fst (snd (trackLatestRun giphy (sourceKey i) latestRun ws))"
        by (simp add: checkSource_def split: prod.split)
      then show ?thesis by blast
    qed
  qed
qed

lemma checkSource_frame:
  assumes "extractRepoInfo (url src) = Some i" and "k \<noteq> sourceKey i"
  shows "fst (snd (checkSource github giphy src ws)) k = ws k"
  using checkSource_map [OF assms(1), of github giphy ws] trackLatestRun_frame [OF assms(2)]
  by auto

lemma checkSource_keeps:
  assumes "extractRepoInfo (url src) = Some i" and "ws (sourceKey i) \<noteq> None"
  shows "fst (snd (checkSource github giphy src ws)) (sourceKey i) \<noteq> None"
  using checkSource_map [OF assms(1), of github giphy ws]
    trackLatestRun_keeps [of ws "sourceKey i" giphy] assms(2)
  by auto

subsection \<open>Evaluations at the concrete values\<close>

lemma extract_a_source:
  "extractRepoInfo (url a_source) = Some \<lparr>owner = ''a'', repo = ''b''\<rparr>"
  by (simp add: a_source_def regex_at_def nonslash_def)

lemma fetch_runs_answer:
  "fetchWorkflowRuns (always (runs_answer runs)) own rep 3 =
     (Returns runs, [FetchAttempt (runs_url own rep) 1])"
  by (simp add: fetchWorkflowRuns_def fetch_loop.simps always_def runs_answer_def
      fetch_try_def ok_def)

lemma gif_answer_gif: "getRandomGif tag gif_answer = Returns test_gif"
  by (simp add: getRandomGif_def gif_try_def gif_answer_def ok_def parsed_or_def test_gif_def)

subsection \<open>The state tracker\<close>

text \<open>
  Claim C2, as amended. A repository is tracked with the record \<open>P\<close>, and the latest run
  \<open>R\<close> that a poll returns has another id than \<open>P\<close> and is already completed. Then the
  iteration emits no notification and opens no window, and it leaves the map as it was:
  the assignment of lines 293-298 is inside the test \<open>latestRun.status !== 'completed'\<close> of
  line 286, so the record under the key is still \<open>P\<close>, not a record of \<open>R\<close>.
\<close>

theorem superseded_completed_run_keeps_record:
  assumes "extractRepoInfo (url src) = Some i"
    and "fetchWorkflowRuns github (owner i) (repo i) 3 = (Returns (R # older), evs)"
    and "ws (sourceKey i) = Some P"
    and "run_id R \<noteq> latestRunId P"
    and "run_status R = ''completed''"
  shows "checkSource github giphy src ws = (Returns (), ws, evs) \<and>
         notifications evs = [] \<and> popups evs = []"
proof -
  from assms(3-5) have "trackLatestRun giphy (sourceKey i) R ws = (Returns (), ws, [])"
    by (rule track_superseded_completed)
  with assms(1,2) have "checkSource github giphy src ws = (Returns (), ws, evs @ [])"
    by (rule checkSource_observed)
  with fetchWorkflowRuns_quiet [OF assms(2)] show ?thesis by simp
qed

theorem superseded_completed_run_keeps_record_witness:
  "extractRepoInfo (url a_source) = Some \<lparr>owner = ''a'', repo = ''b''\<rparr> \<and>
   fetchWorkflowRuns (always (runs_answer [a_run 6 ''completed'' (Some ''success'')])) ''a'' ''b'' 3 =
     (Returns [a_run 6 ''completed'' (Some ''success'')],
      [FetchAttempt ''https://api.github.com/repos/a/b/actions/runs'' 1]) \<and>
   run_id (a_run 6 ''completed'' (Some ''success'')) \<noteq>
     latestRunId (state_of_run (a_run 5 ''in_progress'' None)) \<and>
   run_status (a_run 6 ''completed'' (Some ''success'')) = ''completed'' \<and>
   checkSource (always (runs_answer [a_run 6 ''completed'' (Some ''success'')])) gif_answer a_source
     [''a/b'' \<mapsto> state_of_run (a_run 5 ''in_progress'' None)] =
   (Returns (), [''a/b'' \<mapsto> state_of_run (a_run 5 ''in_progress'' None)],
    [FetchAttempt ''https://api.github.com/repos/a/b/actions/runs'' 1])"
  using superseded_completed_run_keeps_record [of a_source "\<lparr>owner = ''a'', repo = ''b''\<rparr>"
      "always (runs_answer [a_run 6 ''completed'' (Some ''success'')])"
      "a_run 6 ''completed'' (Some ''success'')" "[]"
      "[FetchAttempt ''https://api.github.com/repos/a/b/actions/runs'' 1]"
      "[''a/b'' \<mapsto> state_of_run (a_run 5 ''in_progress'' None)]"
      "state_of_run (a_run 5 ''in_progress'' None)" gif_answer]
  by (simp add: extract_a_source fetch_runs_answer runs_url_def sourceKey_def state_of_run_def
      a_run_def)

text \<open>
  The claim as it was stated fails: with run 5 tracked as in progress and run 6 observed
  as completed, the record under the key after the iteration is the one of run 5.
\<close>

theorem superseded_completed_run_not_recorded:
  "run_id (a_run 6 ''completed'' (Some ''success'')) \<noteq>
     latestRunId (state_of_run (a_run 5 ''in_progress'' None)) \<and>
   run_status (a_run 6 ''completed'' (Some ''success'')) = ''completed'' \<and>
   fst (snd (checkSource (always (runs_answer [a_run 6 ''completed'' (Some ''success'')]))
      gif_answer a_source [''a/b'' \<mapsto> state_of_run (a_run 5 ''in_progress'' None)])) ''a/b''
     = Some (state_of_run (a_run 5 ''in_progress'' None)) \<and>
   state_of_run (a_run 5 ''in_progress'' None) \<noteq>
     state_of_run (a_run 6 ''completed'' (Some ''success''))"
  by (simp add: checkSource_def extract_a_source fetch_runs_answer trackLatestRun_def
      sourceKey_def state_of_run_def a_run_def)



text \<open>
  Claim C4. A repository is tracked with the record \<open>P\<close> (for instance run 5, in progress)
  and a poll returns a latest run \<open>R\<close> with another id that is not completed (for instance
  run 6, in progress). The iteration enters the notification path exactly once, with the
  tag of a started run (the code's tag for it is \<open>lets get started\<close>), and stores a record
  of \<open>R\<close>, marked as start-notified, so the stored run id is the one of \<open>R\<close>.
\<close>

theorem new_run_start_notifies_once:
  assumes "extractRepoInfo (url src) = Some i"
    and "fetchWorkflowRuns github (owner i) (repo i) 3 = (Returns (R # older), evs)"
    and "ws (sourceKey i) = Some P"
    and "run_id R \<noteq> latestRunId P"
    and "run_status R \<noteq> ''completed''"
    and "getRandomGif ''lets get started'' giphy = Returns g"
  shows "checkSource github giphy src ws =
           (Returns (), ws(sourceKey i \<mapsto> started_state_of_run R),
            evs @ GetRandomGif ''lets get started'' #
              (if gif_url g \<noteq> [] then [CreateGifWindow g] else [])) \<and>
         notifications (evs @ GetRandomGif ''lets get started'' #
              (if gif_url g \<noteq> [] then [CreateGifWindow g] else [])) = [''lets get started''] \<and>
         popups (evs @ GetRandomGif ''lets get started'' #
              (if gif_url g \<noteq> [] then [CreateGifWindow g] else [])) =
           (if gif_url g \<noteq> [] then [g] else []) \<and>
         latestRunId (started_state_of_run R) = run_id R"
proof -
  have "trackLatestRun giphy (sourceKey i) R ws =
     (Returns (), ws(sourceKey i \<mapsto> started_state_of_run R),
      GetRandomGif ''lets get started'' # (if gif_url g \<noteq> [] then [CreateGifWindow g] else []))"
    using assms(3-6) by (rule track_started)
  with assms(1,2) have "checkSource github giphy src ws =
           (Returns (), ws(sourceKey i \<mapsto> started_state_of_run R),
            evs @ GetRandomGif ''lets get started'' #
              (if gif_url g \<noteq> [] then [CreateGifWindow g] else []))"
    by (rule checkSource_observed)
  moreover have "notifications evs = [] \<and> popups evs = []"
    using assms(2) by (rule fetchWorkflowRuns_quiet)
  ultimately show ?thesis
    by (simp add: notifications_append popups_append started_state_of_run_def)
qed

theorem new_run_start_notifies_once_witness:
  "checkSource (always (runs_answer [a_run 6 ''in_progress'' None])) gif_answer a_source
       [''a/b'' \<mapsto> state_of_run (a_run 5 ''in_progress'' None)] =
     (Returns (), [''a/b'' \<mapsto> started_state_of_run (a_run 6 ''in_progress'' None)],
      [FetchAttempt ''https://api.github.com/repos/a/b/actions/runs'' 1,
       GetRandomGif ''lets get started'', CreateGifWindow test_gif]) \<and>
   latestRunId (started_state_of_run (a_run 6 ''in_progress'' None)) = 6"
  using new_run_start_notifies_once [of a_source "\<lparr>owner = ''a'', repo = ''b''\<rparr>"
      "always (runs_answer [a_run 6 ''in_progress'' None])"
      "a_run 6 ''in_progress'' None" "[]"
      "[FetchAttempt ''https://api.github.com/repos/a/b/actions/runs'' 1]"
      "[''a/b'' \<mapsto> state_of_run (a_run 5 ''in_progress'' None)]"
      "state_of_run (a_run 5 ''in_progress'' None)" gif_answer test_gif]
  by (simp add: extract_a_source fetch_runs_answer gif_answer_gif runs_url_def sourceKey_def
      a_run_def test_gif_def state_of_run_def)

text \<open>
  Claim C5, as amended. The life of a record of the state map.

  A poll of a source creates the record of its repository exactly when no record is
  stored under the key and the status client returns at least one run: the record then
  holds the id, the status and the conclusion of the latest run, and the poll asks for no
  image and opens no window, whatever the status and the conclusion are. A poll that
  returns no run, or a source that does not resolve, changes nothing; no poll touches
  the record of another key, and no poll deletes a record.

  Removing the source at a valid index takes it out of the list and deletes exactly the
  record under the key of that source: every other record stays, and an index out of
  range changes nothing. Adding a source does not touch the map.

  The key is the repository, not the source. When another stored source resolves to
  the same repository, removing one of the two deletes the record they share, and the
  next poll of the remaining source that returns a run creates the record again, without
  a notification: a record can be created on a poll that is not the first successful
  poll of its repository.
\<close>

theorem state_record_lifecycle:
  "(extractRepoInfo (url src) = Some i \<and> ws (sourceKey i) = None \<and>
    fetchWorkflowRuns github (owner i) (repo i) 3 = (Returns (R # older), evs) \<longrightarrow>
      checkSource github giphy src ws =
        (Returns (),
         ws(sourceKey i \<mapsto> \<lparr>latestRunId = run_id R, status = run_status R,
                              conclusion = run_conclusion R, notifiedStart = False\<rparr>),
         evs) \<and>
      notifications evs = [] \<and> popups evs = []) \<and>
   (extractRepoInfo (url src) = Some i \<and>
    fetchWorkflowRuns github (owner i) (repo i) 3 = (Returns [], evs) \<longrightarrow>
      checkSource github giphy src ws = (Returns (), ws, evs)) \<and>
   (extractRepoInfo (url src) = None \<longrightarrow>
      checkSource github giphy src ws = (Returns (), ws, [])) \<and>
   (extractRepoInfo (url src) = Some i \<longrightarrow>
      (\<forall>k. k \<noteq> sourceKey i \<longrightarrow> fst (snd (checkSource github giphy src ws)) k = ws k)) \<and>
   (extractRepoInfo (url src) = Some i \<and> ws (sourceKey i) \<noteq> None \<longrightarrow>
      fst (snd (checkSource github giphy src ws)) (sourceKey i) \<noteq> None) \<and>
   (0 \<le> index \<and> index < int (length (sources st)) \<and>
    extractRepoInfo (url (sources st ! nat index)) = Some j \<longrightarrow>
      remove_source index st =
        (Returns True,
         \<lparr>sources = take (nat index) (sources st) @ drop (Suc (nat index)) (sources st),
          workflowStates = (workflowStates st)(sourceKey j := None)\<rparr>,
         [SaveSources (take (nat index) (sources st) @ drop (Suc (nat index)) (sources st))])) \<and>
   (0 \<le> index \<and> index < int (length (sources st)) \<and>
    extractRepoInfo (url (sources st ! nat index)) = None \<longrightarrow>
      remove_source index st =
        (Returns True,
         \<lparr>sources = take (nat index) (sources st) @ drop (Suc (nat index)) (sources st),
          workflowStates = workflowStates st\<rparr>,
         [SaveSources (take (nat index) (sources st) @ drop (Suc (nat index)) (sources st))])) \<and>
   (index < 0 \<or> int (length (sources st)) \<le> index \<longrightarrow>
      remove_source index st = (Returns True, st, [])) \<and>
   workflowStates (fst (snd (add_source u now st))) = workflowStates st \<and>
   (0 \<le> index \<and> index < int (length (sources st)) \<and>
    extractRepoInfo (url (sources st ! nat index)) = Some j \<and>
    extractRepoInfo (url src) = Some i \<and> sourceKey i = sourceKey j \<and>
    fetchWorkflowRuns github (owner i) (repo i) 3 = (Returns (R # older), evs) \<longrightarrow>
      checkSource github giphy src (workflowStates (fst (snd (remove_source index st)))) =
        (Returns (),
         (workflowStates st)
           (sourceKey j \<mapsto> \<lparr>latestRunId = run_id R, status = run_status R,
                              conclusion = run_conclusion R, notifiedStart = False\<rparr>),
         evs) \<and>
      notifications evs = [] \<and> popups evs = [])"
proof -
  let ?rec = "\<lambda>R. \<lparr>latestRunId = run_id R, status = run_status R,
                    conclusion = run_conclusion R, notifiedStart = False\<rparr>"
  let ?rest = "take (nat index) (sources st) @ drop (Suc (nat index)) (sources st)"
  have created: "checkSource github giphy src m = (Returns (), m(sourceKey i \<mapsto> ?rec R), evs) \<and>
      notifications evs = [] \<and> popups evs = []"
    if a: "extractRepoInfo (url src) = Some i" and b: "m (sourceKey i) = None"
      and c: "fetchWorkflowRuns github (owner i) (repo i) 3 = (Returns (R # older), evs)"
    for m
  proof -
    have "trackLatestRun giphy (sourceKey i) R m =
        (Returns (), m(sourceKey i \<mapsto> state_of_run R), [])"
      using b by (rule track_first_sight)
    with a c have "checkSource github giphy src m =
        (Returns (), m(sourceKey i \<mapsto> state_of_run R), evs @ [])"
      by (rule checkSource_observed)
    with fetchWorkflowRuns_quiet [OF c] show ?thesis by (simp add: state_of_run_def)
  qed
  have removed: "remove_source index st =
      (Returns True, \<lparr>sources = ?rest, workflowStates = (workflowStates st)(sourceKey j := None)\<rparr>,
       [SaveSources ?rest])"
    if "0 \<le> index" and "index < int (length (sources st))"
      and "extractRepoInfo (url (sources st ! nat index)) = Some j"
    using that by (simp add: remove_source_def Let_def)
  have removed_unresolved: "remove_source index st =
      (Returns True, \<lparr>sources = ?rest, workflowStates = workflowStates st\<rparr>, [SaveSources ?rest])"
    if "0 \<le> index" and "index < int (length (sources st))"
      and "extractRepoInfo (url (sources st ! nat index)) = None"
    using that by (simp add: remove_source_def Let_def)
  have out_of_range: "remove_source index st = (Returns True, st, [])"
    if "index < 0 \<or> int (length (sources st)) \<le> index"
    using that by (auto simp add: remove_source_def)
  have added: "workflowStates (fst (snd (add_source u now st))) = workflowStates st"
    by (simp add: add_source_def Let_def split: option.split)
  have again: "checkSource github giphy src (workflowStates (fst (snd (remove_source index st)))) =
        (Returns (), (workflowStates st)(sourceKey j \<mapsto> ?rec R), evs) \<and>
      notifications evs = [] \<and> popups evs = []"
    if r1: "0 \<le> index" and r2: "index < int (length (sources st))"
      and r3: "extractRepoInfo (url (sources st ! nat index)) = Some j"
      and a: "extractRepoInfo (url src) = Some i" and k: "sourceKey i = sourceKey j"
      and c: "fetchWorkflowRuns github (owner i) (repo i) 3 = (Returns (R # older), evs)"
  proof -
    let ?m = "(workflowStates st)(sourceKey j := None)"
    from removed [OF r1 r2 r3]
    have m: "workflowStates (fst (snd (remove_source index st))) = ?m" by simp
    have "?m (sourceKey i) = None" using k by simp
    with a have "checkSource github giphy src ?m = (Returns (), ?m(sourceKey i \<mapsto> ?rec R), evs) \<and>
        notifications evs = [] \<and> popups evs = []"
      using c by (rule created)
    with m k show ?thesis by simp
  qed
  show ?thesis
  proof (intro conjI impI allI)
    assume h: "extractRepoInfo (url src) = Some i \<and> ws (sourceKey i) = None \<and>
      fetchWorkflowRuns github (owner i) (repo i) 3 = (Returns (R # older), evs)"
    then have "checkSource github giphy src ws = (Returns (), ws(sourceKey i \<mapsto> ?rec R), evs) \<and>
        notifications evs = [] \<and> popups evs = []"
      by (intro created) simp_all
    then show "checkSource github giphy src ws = (Returns (), ws(sourceKey i \<mapsto> ?rec R), evs)"
      and "notifications evs = []" and "popups evs = []"
      by simp_all
  next
    assume "extractRepoInfo (url src) = Some i \<and>
      fetchWorkflowRuns github (owner i) (repo i) 3 = (Returns [], evs)"
    then show "checkSource github giphy src ws = (Returns (), ws, evs)"
      by (simp add: checkSource_no_runs)
  next
    assume "extractRepoInfo (url src) = None"
    then show "checkSource github giphy src ws = (Returns (), ws, [])"
      by (rule checkSource_unresolved)
  next
    fix k
    assume "extractRepoInfo (url src) = Some i" and "k \<noteq> sourceKey i"
    then show "fst (snd (checkSource github giphy src ws)) k = ws k"
      by (rule checkSource_frame)
  next
    assume "extractRepoInfo (url src) = Some i \<and> ws (sourceKey i) \<noteq> None"
    then show "fst (snd (checkSource github giphy src ws)) (sourceKey i) \<noteq> None"
      by (simp add: checkSource_keeps)
  next
    assume "0 \<le> index \<and> index < int (length (sources st)) \<and>
      extractRepoInfo (url (sources st ! nat index)) = Some j"
    then show "remove_source index st =
        (Returns True, \<lparr>sources = ?rest, workflowStates = (workflowStates st)(sourceKey j := None)\<rparr>,
         [SaveSources ?rest])"
      by (intro removed) simp_all
  next
    assume "0 \<le> index \<and> index < int (length (sources st)) \<and>
      extractRepoInfo (url (sources st ! nat index)) = None"
    then show "remove_source index st =
        (Returns True, \<lparr>sources = ?rest, workflowStates = workflowStates st\<rparr>, [SaveSources ?rest])"
      by (intro removed_unresolved) simp_all
  next
    assume "index < 0 \<or> int (length (sources st)) \<le> index"
    then show "remove_source index st = (Returns True, st, [])"
      by (rule out_of_range)
  next
    show "workflowStates (fst (snd (add_source u now st))) = workflowStates st"
      by (rule added)
  next
    assume h: "0 \<le> index \<and> index < int (length (sources st)) \<and>
      extractRepoInfo (url (sources st ! nat index)) = Some j \<and>
      extractRepoInfo (url src) = Some i \<and> sourceKey i = sourceKey j \<and>
      fetchWorkflowRuns github (owner i) (repo i) 3 = (Returns (R # older), evs)"
    then have "checkSource github giphy src (workflowStates (fst (snd (remove_source index st)))) =
        (Returns (), (workflowStates st)(sourceKey j \<mapsto> ?rec R), evs) \<and>
      notifications evs = [] \<and> popups evs = []"
      by (intro again) simp_all
    then show "checkSource github giphy src (workflowStates (fst (snd (remove_source index st)))) =
        (Returns (), (workflowStates st)(sourceKey j \<mapsto> ?rec R), evs)"
      and "notifications evs = []" and "popups evs = []"
      by simp_all
  qed
qed

lemma extract_twin_url:
  "extractRepoInfo ''github.com/a/b'' = Some \<lparr>owner = ''a'', repo = ''b''\<rparr>"
  by (simp add: regex_at_def nonslash_def)

lemma extract_other_urls:
  "extractRepoInfo ''https://github.com/c/d'' = Some \<lparr>owner = ''c'', repo = ''d''\<rparr>"
  "extractRepoInfo ''https://gitlab.com/a/b'' = None"
  by (simp_all add: regex_at_def nonslash_def)

theorem state_record_lifecycle_witness:
  "checkSource (always (runs_answer [a_run 7 ''completed'' (Some ''failure'')])) gif_answer a_source
     Map.empty =
     (Returns (),
      [''a/b'' \<mapsto> \<lparr>latestRunId = 7, status = ''completed'', conclusion = Some ''failure'',
                    notifiedStart = False\<rparr>],
      [FetchAttempt ''https://api.github.com/repos/a/b/actions/runs'' 1]) \<and>
   checkSource (always (runs_answer [])) gif_answer a_source Map.empty =
     (Returns (), Map.empty, [FetchAttempt ''https://api.github.com/repos/a/b/actions/runs'' 1]) \<and>
   checkSource (always (runs_answer [a_run 7 ''completed'' (Some ''failure'')])) gif_answer
     \<lparr>url = ''https://gitlab.com/a/b'', added = ''t''\<rparr> Map.empty = (Returns (), Map.empty, []) \<and>
   remove_source 0
     \<lparr>sources = [a_source, \<lparr>url = ''https://github.com/c/d'', added = ''t''\<rparr>],
      workflowStates =
        [''a/b'' \<mapsto> \<lparr>latestRunId = 7, status = ''completed'', conclusion = Some ''failure'',
                      notifiedStart = False\<rparr>,
         ''c/d'' \<mapsto> \<lparr>latestRunId = 3, status = ''queued'', conclusion = None,
                      notifiedStart = True\<rparr>]\<rparr> =
     (Returns True,
      \<lparr>sources = [\<lparr>url = ''https://github.com/c/d'', added = ''t''\<rparr>],
       workflowStates =
         [''c/d'' \<mapsto> \<lparr>latestRunId = 3, status = ''queued'', conclusion = None,
                       notifiedStart = True\<rparr>]\<rparr>,
      [SaveSources [\<lparr>url = ''https://github.com/c/d'', added = ''t''\<rparr>]]) \<and>
   remove_source 2
     \<lparr>sources = [a_source, \<lparr>url = ''https://github.com/c/d'', added = ''t''\<rparr>],
      workflowStates = Map.empty\<rparr> =
     (Returns True,
      \<lparr>sources = [a_source, \<lparr>url = ''https://github.com/c/d'', added = ''t''\<rparr>],
       workflowStates = Map.empty\<rparr>, []) \<and>
   checkSource (always (runs_answer [a_run 5 ''completed'' (Some ''failure'')])) gif_answer a_source
     (workflowStates (fst (snd (remove_source 1
        \<lparr>sources = [a_source, \<lparr>url = ''github.com/a/b'', added = ''t''\<rparr>],
         workflowStates =
           [''a/b'' \<mapsto> \<lparr>latestRunId = 5, status = ''in_progress'', conclusion = None,
                         notifiedStart = False\<rparr>]\<rparr>)))) =
     (Returns (),
      [''a/b'' \<mapsto> \<lparr>latestRunId = 5, status = ''completed'', conclusion = Some ''failure'',
                    notifiedStart = False\<rparr>],
      [FetchAttempt ''https://api.github.com/repos/a/b/actions/runs'' 1])"
proof -
  let ?ab = "\<lparr>owner = ''a'', repo = ''b''\<rparr>"
  let ?cd = "\<lparr>url = ''https://github.com/c/d'', added = ''t''\<rparr>"
  let ?ev = "[FetchAttempt ''https://api.github.com/repos/a/b/actions/runs'' 1]"
  let ?r7 = "\<lparr>latestRunId = 7, status = ''completed'', conclusion = Some ''failure'',
              notifiedStart = False\<rparr>"
  let ?r3 = "\<lparr>latestRunId = 3, status = ''queued'', conclusion = None, notifiedStart = True\<rparr>"
  let ?r5 = "\<lparr>latestRunId = 5, status = ''in_progress'', conclusion = None,
              notifiedStart = False\<rparr>"
  let ?two = "\<lparr>sources = [a_source, ?cd], workflowStates = [''a/b'' \<mapsto> ?r7, ''c/d'' \<mapsto> ?r3]\<rparr>"
  have swap: "[''a/b'' \<mapsto> ?r7, ''c/d'' \<mapsto> ?r3](''a/b'' := None) = [''c/d'' \<mapsto> ?r3]"
    by (rule ext) simp
  have 1: "checkSource (always (runs_answer [a_run 7 ''completed'' (Some ''failure'')])) gif_answer
      a_source Map.empty = (Returns (), [''a/b'' \<mapsto> ?r7], ?ev)"
    and 4: "remove_source 0 ?two =
      (Returns True, \<lparr>sources = [?cd], workflowStates = [''c/d'' \<mapsto> ?r3]\<rparr>, [SaveSources [?cd]])"
    using state_record_lifecycle [of a_source ?ab Map.empty
        "always (runs_answer [a_run 7 ''completed'' (Some ''failure'')])"
        "a_run 7 ''completed'' (Some ''failure'')" "[]" ?ev gif_answer 0 ?two ?ab] swap
    by (simp_all add: extract_a_source extract_other_urls fetch_runs_answer runs_url_def
        sourceKey_def a_run_def del: extractRepoInfo.simps)
  have 2: "checkSource (always (runs_answer [])) gif_answer a_source Map.empty =
      (Returns (), Map.empty, ?ev)"
    and 5: "remove_source 2 \<lparr>sources = [a_source, ?cd], workflowStates = Map.empty\<rparr> =
      (Returns True, \<lparr>sources = [a_source, ?cd], workflowStates = Map.empty\<rparr>, [])"
    using state_record_lifecycle [of a_source ?ab Map.empty "always (runs_answer [])" _ _ ?ev
        gif_answer 2 "\<lparr>sources = [a_source, ?cd], workflowStates = Map.empty\<rparr>"]
    by (simp_all add: extract_a_source fetch_runs_answer runs_url_def del: extractRepoInfo.simps)
  have 3: "checkSource (always (runs_answer [a_run 7 ''completed'' (Some ''failure'')])) gif_answer
      \<lparr>url = ''https://gitlab.com/a/b'', added = ''t''\<rparr> Map.empty = (Returns (), Map.empty, [])"
    using state_record_lifecycle [of "\<lparr>url = ''https://gitlab.com/a/b'', added = ''t''\<rparr>" _
        Map.empty "always (runs_answer [a_run 7 ''completed'' (Some ''failure'')])" _ _ _ gif_answer]
    by (simp add: extract_other_urls del: extractRepoInfo.simps)
  have 6: "checkSource (always (runs_answer [a_run 5 ''completed'' (Some ''failure'')])) gif_answer
      a_source
      (workflowStates (fst (snd (remove_source 1
        \<lparr>sources = [a_source, \<lparr>url = ''github.com/a/b'', added = ''t''\<rparr>],
         workflowStates = [''a/b'' \<mapsto> ?r5]\<rparr>)))) =
      (Returns (),
       [''a/b'' \<mapsto> \<lparr>latestRunId = 5, status = ''completed'', conclusion = Some ''failure'',
                     notifiedStart = False\<rparr>], ?ev)"
    using state_record_lifecycle [of a_source ?ab _
        "always (runs_answer [a_run 5 ''completed'' (Some ''failure'')])"
        "a_run 5 ''completed'' (Some ''failure'')" "[]" ?ev gif_answer 1
        "\<lparr>sources = [a_source, \<lparr>url = ''github.com/a/b'', added = ''t''\<rparr>],
          workflowStates = [''a/b'' \<mapsto> ?r5]\<rparr>" ?ab]
    by (simp add: extract_a_source extract_twin_url fetch_runs_answer runs_url_def sourceKey_def
        a_run_def del: extractRepoInfo.simps)
  from 1 2 3 4 5 6 show ?thesis by (intro conjI)
qed

text \<open>
  The claim as it was stated fails when two stored sources name one repository. Both urls
  are accepted, since only a verbatim duplicate is refused. The first cycle creates the
  record of \<open>a/b\<close> from run 5, in progress. Removing the second source deletes that record
  although the first source is still stored. The next cycle sees run 5 completed with a
  failure and creates the record a second time, asking for no image: this is not the
  first successful poll of the repository, and had the record stayed the same cycle would
  have notified the failure.
\<close>

theorem twin_source_record_created_again:
  "add_source ''https://github.com/a/b'' ''t1'' \<lparr>sources = [], workflowStates = Map.empty\<rparr> =
     (Returns True,
      \<lparr>sources = [\<lparr>url = ''https://github.com/a/b'', added = ''t1''\<rparr>],
       workflowStates = Map.empty\<rparr>,
      [SaveSources [\<lparr>url = ''https://github.com/a/b'', added = ''t1''\<rparr>]]) \<and>
   add_source ''github.com/a/b'' ''t2''
     \<lparr>sources = [\<lparr>url = ''https://github.com/a/b'', added = ''t1''\<rparr>],
      workflowStates = Map.empty\<rparr> =
     (Returns True,
      \<lparr>sources = [\<lparr>url = ''https://github.com/a/b'', added = ''t1''\<rparr>,
                  \<lparr>url = ''github.com/a/b'', added = ''t2''\<rparr>],
       workflowStates = Map.empty\<rparr>,
      [SaveSources [\<lparr>url = ''https://github.com/a/b'', added = ''t1''\<rparr>,
                    \<lparr>url = ''github.com/a/b'', added = ''t2''\<rparr>]]) \<and>
   checkWorkflows (a_cycle (runs_answer [a_run 5 ''in_progress'' None]) gif_answer)
     \<lparr>sources = [\<lparr>url = ''https://github.com/a/b'', added = ''t1''\<rparr>,
                 \<lparr>url = ''github.com/a/b'', added = ''t2''\<rparr>],
      workflowStates = Map.empty\<rparr> =
     (Returns (),
      \<lparr>sources = [\<lparr>url = ''https://github.com/a/b'', added = ''t1''\<rparr>,
                  \<lparr>url = ''github.com/a/b'', added = ''t2''\<rparr>],
       workflowStates =
         [''a/b'' \<mapsto> \<lparr>latestRunId = 5, status = ''in_progress'', conclusion = None,
                       notifiedStart = False\<rparr>]\<rparr>,
      [ProbeNetwork,
       FetchAttempt ''https://api.github.com/repos/a/b/actions/runs'' 1,
       FetchAttempt ''https://api.github.com/repos/a/b/actions/runs'' 1]) \<and>
   remove_source 1
     \<lparr>sources = [\<lparr>url = ''https://github.com/a/b'', added = ''t1''\<rparr>,
                 \<lparr>url = ''github.com/a/b'', added = ''t2''\<rparr>],
      workflowStates =
        [''a/b'' \<mapsto> \<lparr>latestRunId = 5, status = ''in_progress'', conclusion = None,
                      notifiedStart = False\<rparr>]\<rparr> =
     (Returns True,
      \<lparr>sources = [\<lparr>url = ''https://github.com/a/b'', added = ''t1''\<rparr>],
       workflowStates = Map.empty\<rparr>,
      [SaveSources [\<lparr>url = ''https://github.com/a/b'', added = ''t1''\<rparr>]]) \<and>
   checkWorkflows (a_cycle (runs_answer [a_run 5 ''completed'' (Some ''failure'')]) gif_answer)
     \<lparr>sources = [\<lparr>url = ''https://github.com/a/b'', added = ''t1''\<rparr>],
      workflowStates = Map.empty\<rparr> =
     (Returns (),
      \<lparr>sources = [\<lparr>url = ''https://github.com/a/b'', added = ''t1''\<rparr>],
       workflowStates =
         [''a/b'' \<mapsto> \<lparr>latestRunId = 5, status = ''completed'', conclusion = Some ''failure'',
                       notifiedStart = False\<rparr>]\<rparr>,
      [ProbeNetwork, FetchAttempt ''https://api.github.com/repos/a/b/actions/runs'' 1]) \<and>
   checkWorkflows (a_cycle (runs_answer [a_run 5 ''completed'' (Some ''failure'')]) gif_answer)
     \<lparr>sources = [\<lparr>url = ''https://github.com/a/b'', added = ''t1''\<rparr>],
      workflowStates =
        [''a/b'' \<mapsto> \<lparr>latestRunId = 5, status = ''in_progress'', conclusion = None,
                      notifiedStart = False\<rparr>]\<rparr> =
     (Returns (),
      \<lparr>sources = [\<lparr>url = ''https://github.com/a/b'', added = ''t1''\<rparr>],
       workflowStates =
         [''a/b'' \<mapsto> \<lparr>latestRunId = 5, status = ''completed'', conclusion = Some ''failure'',
                       notifiedStart = False\<rparr>]\<rparr>,
      [ProbeNetwork, FetchAttempt ''https://api.github.com/repos/a/b/actions/runs'' 1,
       GetRandomGif ''failure'', CreateGifWindow test_gif])"
proof -
  let ?s1 = "\<lparr>url = ''https://github.com/a/b'', added = ''t1''\<rparr>"
  let ?s2 = "\<lparr>url = ''github.com/a/b'', added = ''t2''\<rparr>"
  have url1: "extractRepoInfo ''https://github.com/a/b'' = Some \<lparr>owner = ''a'', repo = ''b''\<rparr>"
    using extract_a_source by (simp add: a_source_def)
  note url2 = extract_twin_url
  have probe: "isNetworkAvailable (probe_answer (a_cycle g y))" for g y
    by (simp add: a_cycle_def isNetworkAvailable_def)
  have answers: "github_answers (a_cycle g y) n = always g" "giphy_answers (a_cycle g y) n = y"
    for g y n
    by (simp_all add: a_cycle_def always_def)
  have poll1: "checkSource (always (runs_answer [R])) gif_answer ?s1 m =
      (case trackLatestRun gif_answer ''a/b'' R m of
         (r, m', evs) \<Rightarrow> (r, m', FetchAttempt ''https://api.github.com/repos/a/b/actions/runs'' 1 # evs))"
    for R m
    by (simp add: checkSource_def url1 fetch_runs_answer runs_url_def sourceKey_def
        del: extractRepoInfo.simps)
  have poll2: "checkSource (always (runs_answer [R])) gif_answer ?s2 m =
      (case trackLatestRun gif_answer ''a/b'' R m of
         (r, m', evs) \<Rightarrow> (r, m', FetchAttempt ''https://api.github.com/repos/a/b/actions/runs'' 1 # evs))"
    for R m
    by (simp add: checkSource_def url2 fetch_runs_answer runs_url_def sourceKey_def
        del: extractRepoInfo.simps)
  have notify_failure: "notify ''failure'' gif_answer =
      (Returns (), [GetRandomGif ''failure'', CreateGifWindow test_gif])"
    by (simp add: notify_returns [OF gif_answer_gif] test_gif_def)
  have a1: "add_source ''https://github.com/a/b'' ''t1'' \<lparr>sources = [], workflowStates = Map.empty\<rparr> =
      (Returns True, \<lparr>sources = [?s1], workflowStates = Map.empty\<rparr>, [SaveSources [?s1]])"
    by (simp add: add_source_def url1 del: extractRepoInfo.simps)
  have a2: "add_source ''github.com/a/b'' ''t2'' \<lparr>sources = [?s1], workflowStates = Map.empty\<rparr> =
      (Returns True, \<lparr>sources = [?s1, ?s2], workflowStates = Map.empty\<rparr>, [SaveSources [?s1, ?s2]])"
    by (simp add: add_source_def url2 del: extractRepoInfo.simps)
  have c1: "checkWorkflows (a_cycle (runs_answer [a_run 5 ''in_progress'' None]) gif_answer)
      \<lparr>sources = [?s1, ?s2], workflowStates = Map.empty\<rparr> =
      (Returns (),
       \<lparr>sources = [?s1, ?s2],
        workflowStates = [''a/b'' \<mapsto> \<lparr>latestRunId = 5, status = ''in_progress'', conclusion = None,
                                      notifiedStart = False\<rparr>]\<rparr>,
       [ProbeNetwork, FetchAttempt ''https://api.github.com/repos/a/b/actions/runs'' 1,
        FetchAttempt ''https://api.github.com/repos/a/b/actions/runs'' 1])"
    by (simp add: checkWorkflows_def probe answers poll1 poll2 trackLatestRun_def state_of_run_def
        a_run_def)
  have r1: "remove_source 1
      \<lparr>sources = [?s1, ?s2],
       workflowStates = [''a/b'' \<mapsto> \<lparr>latestRunId = 5, status = ''in_progress'', conclusion = None,
                                     notifiedStart = False\<rparr>]\<rparr> =
      (Returns True, \<lparr>sources = [?s1], workflowStates = Map.empty\<rparr>, [SaveSources [?s1]])"
    by (simp add: remove_source_def url2 sourceKey_def Let_def del: extractRepoInfo.simps)
  have c2: "checkWorkflows (a_cycle (runs_answer [a_run 5 ''completed'' (Some ''failure'')]) gif_answer)
      \<lparr>sources = [?s1], workflowStates = Map.empty\<rparr> =
      (Returns (),
       \<lparr>sources = [?s1],
        workflowStates = [''a/b'' \<mapsto> \<lparr>latestRunId = 5, status = ''completed'',
                                      conclusion = Some ''failure'', notifiedStart = False\<rparr>]\<rparr>,
       [ProbeNetwork, FetchAttempt ''https://api.github.com/repos/a/b/actions/runs'' 1])"
    by (simp add: checkWorkflows_def probe answers poll1 trackLatestRun_def state_of_run_def
        a_run_def)
  have c3: "checkWorkflows (a_cycle (runs_answer [a_run 5 ''completed'' (Some ''failure'')]) gif_answer)
      \<lparr>sources = [?s1],
       workflowStates = [''a/b'' \<mapsto> \<lparr>latestRunId = 5, status = ''in_progress'', conclusion = None,
                                     notifiedStart = False\<rparr>]\<rparr> =
      (Returns (),
       \<lparr>sources = [?s1],
        workflowStates = [''a/b'' \<mapsto> \<lparr>latestRunId = 5, status = ''completed'',
                                      conclusion = Some ''failure'', notifiedStart = False\<rparr>]\<rparr>,
       [ProbeNetwork, FetchAttempt ''https://api.github.com/repos/a/b/actions/runs'' 1,
        GetRandomGif ''failure'', CreateGifWindow test_gif])"
    by (simp add: checkWorkflows_def probe answers poll1 trackLatestRun_def state_of_run_def
        a_run_def notify_failure)
  from a1 a2 c1 r1 c2 c3 show ?thesis by (intro conjI)
qed

subsection \<open>The source store\<close>

text \<open>
  Claim C9. \<open>add-source\<close> throws the error \<open>Invalid GitHub URL\<close> exactly when
  \<open>extractRepoInfo\<close> returns \<open>null\<close> for the url. For a url that resolves, it throws
  \<open>Source already exists\<close> when some stored source has this very url, and otherwise it
  appends the source, saves the list and returns \<open>true\<close>. Whenever it throws, the state is
  the one before the call and nothing was saved.
\<close>

theorem add_source_outcomes:
  "((fst (add_source u now st) = Throws (new_Error ''Invalid GitHub URL'')) =
      (extractRepoInfo u = None)) \<and>
   (extractRepoInfo u \<noteq> None \<and> u \<in> url ` set (sources st) \<longrightarrow>
      add_source u now st = (Throws (new_Error ''Source already exists''), st, [])) \<and>
   (extractRepoInfo u \<noteq> None \<and> u \<notin> url ` set (sources st) \<longrightarrow>
      add_source u now st =
        (Returns True, st\<lparr>sources := sources st @ [\<lparr>url = u, added = now\<rparr>]\<rparr>,
         [SaveSources (sources st @ [\<lparr>url = u, added = now\<rparr>])])) \<and>
   (\<forall>err. fst (add_source u now st) = Throws err \<longrightarrow>
      fst (snd (add_source u now st)) = st \<and> snd (snd (add_source u now st)) = [])"
proof -
  have ex: "list_ex (\<lambda>s. url s = u) (sources st) = (u \<in> url ` set (sources st))"
    by (auto simp add: list_ex_iff)
  show ?thesis
  proof (cases "extractRepoInfo u")
    case None
    then show ?thesis by (simp add: add_source_def)
  next
    case (Some i)
    then show ?thesis
      by (simp add: add_source_def ex Let_def new_Error_def)
  qed
qed

theorem add_source_outcomes_witness:
  "add_source ''https://gitlab.com/a/b'' ''t0'' \<lparr>sources = [], workflowStates = Map.empty\<rparr> =
     (Throws (new_Error ''Invalid GitHub URL''), \<lparr>sources = [], workflowStates = Map.empty\<rparr>, []) \<and>
   add_source ''https://github.com/a/b'' ''t1'' \<lparr>sources = [], workflowStates = Map.empty\<rparr> =
     (Returns True,
      \<lparr>sources = [\<lparr>url = ''https://github.com/a/b'', added = ''t1''\<rparr>], workflowStates = Map.empty\<rparr>,
      [SaveSources [\<lparr>url = ''https://github.com/a/b'', added = ''t1''\<rparr>]]) \<and>
   add_source ''https://github.com/a/b'' ''t2''
       \<lparr>sources = [\<lparr>url = ''https://github.com/a/b'', added = ''t1''\<rparr>], workflowStates = Map.empty\<rparr> =
     (Throws (new_Error ''Source already exists''),
      \<lparr>sources = [\<lparr>url = ''https://github.com/a/b'', added = ''t1''\<rparr>], workflowStates = Map.empty\<rparr>,
      [])"
proof -
  have gitlab: "extractRepoInfo ''https://gitlab.com/a/b'' = None"
    by (simp add: regex_at_def)
  have github: "extractRepoInfo ''https://github.com/a/b'' = Some \<lparr>owner = ''a'', repo = ''b''\<rparr>"
    using extract_a_source by (simp add: a_source_def)
  let ?st0 = "\<lparr>sources = [], workflowStates = Map.empty\<rparr>"
  let ?st1 = "\<lparr>sources = [\<lparr>url = ''https://github.com/a/b'', added = ''t1''\<rparr>],
               workflowStates = Map.empty\<rparr>"
  have 1: "fst (add_source ''https://gitlab.com/a/b'' ''t0'' ?st0) = Throws (new_Error ''Invalid GitHub URL'')"
    using add_source_outcomes [of "''https://gitlab.com/a/b''" "''t0''" ?st0] gitlab by simp
  then have 2: "fst (snd (add_source ''https://gitlab.com/a/b'' ''t0'' ?st0)) = ?st0 \<and>
      snd (snd (add_source ''https://gitlab.com/a/b'' ''t0'' ?st0)) = []"
    using add_source_outcomes [of "''https://gitlab.com/a/b''" "''t0''" ?st0] by blast
  have 3: "add_source ''https://github.com/a/b'' ''t1'' ?st0 =
     (Returns True, ?st1, [SaveSources [\<lparr>url = ''https://github.com/a/b'', added = ''t1''\<rparr>]])"
    using add_source_outcomes [of "''https://github.com/a/b''" "''t1''" ?st0] github by simp
  have 4: "add_source ''https://github.com/a/b'' ''t2'' ?st1 =
     (Throws (new_Error ''Source already exists''), ?st1, [])"
    using add_source_outcomes [of "''https://github.com/a/b''" "''t2''" ?st1] github by simp
  from 1 2 have "add_source ''https://gitlab.com/a/b'' ''t0'' ?st0 =
     (Throws (new_Error ''Invalid GitHub URL''), ?st0, [])"
    by (metis prod.collapse)
  with 3 4 show ?thesis by simp
qed

subsection \<open>The image fetch and the popup\<close>

lemma getRandomGif_no_image:
  "\<forall>img. gif_try a \<noteq> Returns (Some img) \<Longrightarrow> getRandomGif tag a = Returns no_gif"
  by (auto simp add: getRandomGif_def split: outcome.split option.split)

lemma getRandomGif_empty_url:
  assumes "\<forall>img. gif_try a = Returns (Some img) \<longrightarrow> gif_url img = []"
  shows "\<exists>g. getRandomGif tag a = Returns g \<and> gif_url g = []"
  using assms by (auto simp add: getRandomGif_def no_gif_def split: outcome.split option.split)

text \<open>
  Claim C10. Suppose the image request gives no image URL: the \<open>try\<close> block of
  \<open>getRandomGif\<close> throws (the request is rejected, the status is not ok, the body does not
  parse or has no \<open>data\<close>), or ends without an image, or returns an image whose URL is
  empty. Then \<open>getRandomGif\<close> returns (it does not throw) a record whose \<open>url\<close> is empty,
  the fixed record of line 35 in the first two cases. For a tracked repository, the
  iteration then opens no window in any case, and it still writes the record of the
  observed run for a started run and for a finished run: the id, the status and the
  conclusion of that run, marked as start-notified for a started run. The only trace of
  the transition outside the map is the image request itself.
\<close>

theorem failed_image_fetch_skips_popup_but_records:
  assumes "\<forall>img. gif_try giphy = Returns (Some img) \<longrightarrow> gif_url img = []"
    and "extractRepoInfo (url src) = Some i"
    and "fetchWorkflowRuns github (owner i) (repo i) 3 = (Returns (R # older), evs)"
    and "ws (sourceKey i) = Some P"
  shows "(\<exists>g. getRandomGif tag giphy = Returns g \<and> gif_url g = []) \<and>
         ((\<forall>img. gif_try giphy \<noteq> Returns (Some img)) \<longrightarrow>
            getRandomGif tag giphy = Returns \<lparr>gif_url = [], width = 400, height = 300\<rparr>) \<and>
         (run_id R \<noteq> latestRunId P \<and> run_status R \<noteq> ''completed'' \<longrightarrow>
            checkSource github giphy src ws =
              (Returns (),
               ws(sourceKey i \<mapsto>
                    \<lparr>latestRunId = run_id R, status = run_status R,
                     conclusion = run_conclusion R, notifiedStart = True\<rparr>),
               evs @ [GetRandomGif ''lets get started''])) \<and>
         (run_id R = latestRunId P \<and> status P \<noteq> ''completed'' \<and> run_status R = ''completed'' \<longrightarrow>
            checkSource github giphy src ws =
              (Returns (),
               ws(sourceKey i \<mapsto>
                    \<lparr>latestRunId = run_id R, status = ''completed'',
                     conclusion = run_conclusion R, notifiedStart = False\<rparr>),
               evs @ [GetRandomGif (if run_conclusion R = Some ''success'' then ''success''
                                    else ''failure'')])) \<and>
         popups (snd (snd (checkSource github giphy src ws))) = []"
proof -
  have empty: "\<exists>g. getRandomGif t giphy = Returns g \<and> gif_url g = []" for t
    using assms(1) by (rule getRandomGif_empty_url)
  have fallback: "getRandomGif tag giphy = Returns no_gif"
    if "\<forall>img. gif_try giphy \<noteq> Returns (Some img)"
    using that by (rule getRandomGif_no_image)
  have started: "checkSource github giphy src ws =
      (Returns (), ws(sourceKey i \<mapsto> started_state_of_run R),
       evs @ [GetRandomGif ''lets get started''])"
    if "run_id R \<noteq> latestRunId P" and "run_status R \<noteq> ''completed''"
  proof -
    from empty obtain g where g: "getRandomGif ''lets get started'' giphy = Returns g"
      and e: "gif_url g = []" by blast
    have "trackLatestRun giphy (sourceKey i) R ws =
       (Returns (), ws(sourceKey i \<mapsto> started_state_of_run R),
        GetRandomGif ''lets get started'' # (if gif_url g \<noteq> [] then [CreateGifWindow g] else []))"
      using assms(4) that g by (rule track_started)
    with assms(2,3) have "checkSource github giphy src ws =
       (Returns (), ws(sourceKey i \<mapsto> started_state_of_run R),
        evs @ GetRandomGif ''lets get started'' # (if gif_url g \<noteq> [] then [CreateGifWindow g] else []))"
      by (rule checkSource_observed)
    with e show ?thesis by simp
  qed
  have finished: "checkSource github giphy src ws =
      (Returns (), ws(sourceKey i \<mapsto> state_of_run R),
       evs @ [GetRandomGif (if run_conclusion R = Some ''success'' then ''success'' else ''failure'')])"
    if "run_id R = latestRunId P" and "status P \<noteq> ''completed''" and "run_status R = ''completed''"
  proof -
    let ?tag = "if run_conclusion R = Some ''success'' then ''success'' else ''failure''"
    from empty obtain g where g: "getRandomGif ?tag giphy = Returns g"
      and e: "gif_url g = []" by blast
    have "trackLatestRun giphy (sourceKey i) R ws =
       (Returns (), ws(sourceKey i \<mapsto> state_of_run R),
        GetRandomGif ?tag # (if gif_url g \<noteq> [] then [CreateGifWindow g] else []))"
      using assms(4) that refl g by (rule track_finished)
    with assms(2,3) have "checkSource github giphy src ws =
       (Returns (), ws(sourceKey i \<mapsto> state_of_run R),
        evs @ GetRandomGif ?tag # (if gif_url g \<noteq> [] then [CreateGifWindow g] else []))"
      by (rule checkSource_observed)
    with e show ?thesis by simp
  qed
  have quiet: "popups evs = []"
    using fetchWorkflowRuns_quiet [OF assms(3)] by simp
  have silent: "popups (snd (snd (checkSource github giphy src ws))) = []"
  proof (cases "run_id R \<noteq> latestRunId P")
    case True
    show ?thesis
    proof (cases "run_status R \<noteq> ''completed''")
      case True
      with \<open>run_id R \<noteq> latestRunId P\<close> started quiet show ?thesis
        by (simp add: popups_append)
    next
      case False
      with \<open>run_id R \<noteq> latestRunId P\<close> assms(4)
      have "trackLatestRun giphy (sourceKey i) R ws = (Returns (), ws, [])"
        by (simp add: track_superseded_completed)
      with assms(2,3) have "checkSource github giphy src ws = (Returns (), ws, evs @ [])"
        by (rule checkSource_observed)
      with quiet show ?thesis by simp
    qed
  next
    case False
    show ?thesis
    proof (cases "status P \<noteq> ''completed'' \<and> run_status R = ''completed''")
      case True
      with False finished quiet show ?thesis by (simp add: popups_append)
    next
      case False
      with \<open>\<not> run_id R \<noteq> latestRunId P\<close> assms(4)
      have "trackLatestRun giphy (sourceKey i) R ws = (Returns (), ws, [])"
        by (intro track_unchanged) auto
      with assms(2,3) have "checkSource github giphy src ws = (Returns (), ws, evs @ [])"
        by (rule checkSource_observed)
      with quiet show ?thesis by simp
    qed
  qed
  from empty [of tag] fallback started finished silent show ?thesis
    by (intro conjI impI) (simp_all add: no_gif_def started_state_of_run_def state_of_run_def)
qed

theorem failed_image_fetch_skips_popup_but_records_witness:
  "getRandomGif ''lets get started'' (Throws fetch_failed) =
     Returns \<lparr>gif_url = [], width = 400, height = 300\<rparr> \<and>
   checkSource (always (runs_answer [a_run 6 ''in_progress'' None])) (Throws fetch_failed) a_source
       [''a/b'' \<mapsto> \<lparr>latestRunId = 5, status = ''in_progress'', conclusion = None,
                     notifiedStart = False\<rparr>] =
     (Returns (),
      [''a/b'' \<mapsto> \<lparr>latestRunId = 6, status = ''in_progress'', conclusion = None,
                    notifiedStart = True\<rparr>],
      [FetchAttempt ''https://api.github.com/repos/a/b/actions/runs'' 1,
       GetRandomGif ''lets get started'']) \<and>
   checkSource (always (runs_answer [a_run 5 ''completed'' (Some ''failure'')])) (Throws fetch_failed)
       a_source
       [''a/b'' \<mapsto> \<lparr>latestRunId = 5, status = ''in_progress'', conclusion = None,
                     notifiedStart = False\<rparr>] =
     (Returns (),
      [''a/b'' \<mapsto> \<lparr>latestRunId = 5, status = ''completed'', conclusion = Some ''failure'',
                    notifiedStart = False\<rparr>],
      [FetchAttempt ''https://api.github.com/repos/a/b/actions/runs'' 1,
       GetRandomGif ''failure''])"
  using failed_image_fetch_skips_popup_but_records [of "Throws fetch_failed" a_source
      "\<lparr>owner = ''a'', repo = ''b''\<rparr>"
      "always (runs_answer [a_run 6 ''in_progress'' None])"
      "a_run 6 ''in_progress'' None" "[]"
      "[FetchAttempt ''https://api.github.com/repos/a/b/actions/runs'' 1]"
      "[''a/b'' \<mapsto> \<lparr>latestRunId = 5, status = ''in_progress'', conclusion = None,
                     notifiedStart = False\<rparr>]"
      "\<lparr>latestRunId = 5, status = ''in_progress'', conclusion = None, notifiedStart = False\<rparr>"
      "''lets get started''"]
    failed_image_fetch_skips_popup_but_records [of "Throws fetch_failed" a_source
      "\<lparr>owner = ''a'', repo = ''b''\<rparr>"
      "always (runs_answer [a_run 5 ''completed'' (Some ''failure'')])"
      "a_run 5 ''completed'' (Some ''failure'')" "[]"
      "[FetchAttempt ''https://api.github.com/repos/a/b/actions/runs'' 1]"
      "[''a/b'' \<mapsto> \<lparr>latestRunId = 5, status = ''in_progress'', conclusion = None,
                     notifiedStart = False\<rparr>]"
      "\<lparr>latestRunId = 5, status = ''in_progress'', conclusion = None, notifiedStart = False\<rparr>"
      "''failure''"]
  by (simp add: extract_a_source fetch_runs_answer runs_url_def sourceKey_def gif_try_def
      a_run_def)

subsection \<open>The status client\<close>

text \<open>
  The message of an error made from an HTTP status holds no \<open>f\<close>, so it does not include
  \<open>fetch failed\<close>, and such an error has neither the code nor the name that line 217
  looks for.
\<close>

lemma js_includes_subset: "js_includes s p \<Longrightarrow> set p \<subseteq> set s"
proof (induction s)
  case Nil
  then show ?case by simp
next
  case (Cons c cs)
  show ?case
  proof (cases "prefix p (c # cs)")
    case True
    then show ?thesis by (rule set_mono_prefix)
  next
    case False
    with Cons have "set p \<subseteq> set cs" by simp
    then show ?thesis by auto
  qed
qed

lemma digit_char_not_f: "k < 10 \<Longrightarrow> digit_char k \<noteq> CHR ''f''"
proof -
  assume "k < 10"
  then have "''0123456789'' ! k \<in> set ''0123456789''" by (intro nth_mem) simp
  then show ?thesis by (auto simp add: digit_char_def)
qed

lemma show_nat_no_f: "CHR ''f'' \<notin> set (show_nat n)"
proof (induction n rule: show_nat.induct)
  case (1 n)
  show ?case
  proof (cases "n < 10")
    case True
    then show ?thesis using digit_char_not_f [of n] by (subst show_nat.simps) simp
  next
    case False
    have "n mod 10 < 10" by simp
    then have "digit_char (n mod 10) \<noteq> CHR ''f''" by (rule digit_char_not_f)
    with False 1 show ?thesis by (subst show_nat.simps) simp
  qed
qed

lemma status_error_not_network:
  "\<not> isNetworkError (new_Error (''GitHub API rate limited: '' @ show_nat n))"
  "\<not> isNetworkError (new_Error (''GitHub API error: '' @ show_nat n))"
  using js_includes_subset [of "''GitHub API rate limited: '' @ show_nat n" "''fetch failed''"]
    js_includes_subset [of "''GitHub API error: '' @ show_nat n" "''fetch failed''"]
    show_nat_no_f [of n]
  by (auto simp add: isNetworkError_def new_Error_def)

lemma not_ok_not_network:
  assumes "\<not> ok response"
  shows "\<exists>err. fetch_try (Returns response) = Throws err \<and> \<not> isNetworkError err"
proof (cases "resp_status response = 403")
  case True
  with assms have "fetch_try (Returns response) =
      Throws (new_Error (''GitHub API rate limited: '' @ show_nat (resp_status response)))"
    by (simp add: fetch_try_def)
  with status_error_not_network(1) show ?thesis by blast
next
  case False
  with assms have "fetch_try (Returns response) =
      Throws (new_Error (''GitHub API error: '' @ show_nat (resp_status response)))"
    by (simp add: fetch_try_def)
  with status_error_not_network(2) show ?thesis by blast
qed

lemma fetch_loop_stops:
  "attempt \<le> retries \<Longrightarrow> fetch_try (answers attempt) = Throws err \<Longrightarrow> \<not> isNetworkError err \<Longrightarrow>
   fetch_loop answers own rep retries attempt = (Returns [], [FetchAttempt (runs_url own rep) attempt])"
  by (subst fetch_loop.simps) simp

lemma show_403: "show_nat 403 = ''403''"
  by (simp add: show_nat.simps digit_char_def)

lemma show_404: "show_nat 404 = ''404''"
  by (simp add: show_nat.simps digit_char_def)

text \<open>
  Claim C1, at the input where the code departs from it. The first attempt is answered
  with status 403. Line 208 throws the error \<open>GitHub API rate limited: 403\<close>, which line 217
  does not classify as a network error, so with any \<open>retries\<close> of at least 1 (the default
  is 3) the call returns the empty list after this single request, without a backoff and
  without a second attempt.
\<close>

theorem rate_limited_attempt_is_not_retried:
  assumes "answers 1 = Returns response"
    and "resp_status response = 403"
    and "1 \<le> retries"
  shows "fetchWorkflowRuns answers own rep retries =
           (Returns [], [FetchAttempt (runs_url own rep) 1]) \<and>
         fetch_try (answers 1) =
           Throws (new_Error (''GitHub API rate limited: '' @ show_nat 403)) \<and>
         \<not> isNetworkError (new_Error (''GitHub API rate limited: '' @ show_nat 403))"
proof -
  have thrown: "fetch_try (answers 1) =
      Throws (new_Error (''GitHub API rate limited: '' @ show_nat 403))"
    using assms(1,2) by (simp add: fetch_try_def ok_def)
  have "fetch_loop answers own rep retries 1 =
      (Returns [], [FetchAttempt (runs_url own rep) 1])"
    using assms(3) thrown status_error_not_network(1) by (rule fetch_loop_stops)
  with thrown status_error_not_network(1) [of 403] show ?thesis
    by (simp add: fetchWorkflowRuns_def)
qed

theorem rate_limited_attempt_is_not_retried_witness:
  "fetchWorkflowRuns (always (status_answer 403)) ''a'' ''b'' 3 =
     (Returns [], [FetchAttempt ''https://api.github.com/repos/a/b/actions/runs'' 1]) \<and>
   fetch_try (status_answer 403) = Throws (new_Error ''GitHub API rate limited: 403'') \<and>
   isNetworkError (new_Error ''GitHub API rate limited: 403'') = False"
  using rate_limited_attempt_is_not_retried [of "always (status_answer 403)"
      "\<lparr>resp_status = 403, resp_json = Returns (GithubData None)\<rparr>" 3 "''a''" "''b''"]
  by (simp add: always_def status_answer_def runs_url_def show_403)

text \<open>
  Claim C7. \<open>fetchWorkflowRuns\<close> always completes with a \<open>return\<close>, whatever the attempts
  are answered, thrown errors included. When the first attempt fails with an error that
  line 217 does not classify as a network error, the call returns the empty list after
  that one request, with no backoff. A response whose status is not ok, such as 404, is
  such a failure.
\<close>

theorem fetchWorkflowRuns_never_throws:
  "(\<exists>runs. fst (fetchWorkflowRuns answers own rep retries) = Returns runs) \<and>
   (1 \<le> retries \<and> fetch_try (answers 1) = Throws err \<and> \<not> isNetworkError err \<longrightarrow>
      fetchWorkflowRuns answers own rep retries =
        (Returns [], [FetchAttempt (runs_url own rep) 1])) \<and>
   (\<not> ok response \<longrightarrow>
      (\<exists>e. fetch_try (Returns response) = Throws e \<and> \<not> isNetworkError e))"
proof (intro conjI impI)
  show "\<exists>runs. fst (fetchWorkflowRuns answers own rep retries) = Returns runs"
    unfolding fetchWorkflowRuns_def by (rule fetch_loop_returns)
next
  assume "1 \<le> retries \<and> fetch_try (answers 1) = Throws err \<and> \<not> isNetworkError err"
  then show "fetchWorkflowRuns answers own rep retries =
      (Returns [], [FetchAttempt (runs_url own rep) 1])"
    using fetch_loop_stops [of 1 retries answers err own rep]
    by (simp add: fetchWorkflowRuns_def)
next
  assume "\<not> ok response"
  then show "\<exists>e. fetch_try (Returns response) = Throws e \<and> \<not> isNetworkError e"
    by (rule not_ok_not_network)
qed

theorem fetchWorkflowRuns_never_throws_witness:
  "fetch_try (status_answer 404) = Throws (new_Error ''GitHub API error: 404'') \<and>
   isNetworkError (new_Error ''GitHub API error: 404'') = False \<and>
   fetchWorkflowRuns (always (status_answer 404)) ''a'' ''b'' 3 =
     (Returns [], [FetchAttempt ''https://api.github.com/repos/a/b/actions/runs'' 1]) \<and>
   attempts (snd (fetchWorkflowRuns (always (status_answer 404)) ''a'' ''b'' 3)) = [1]"
proof -
  have thrown: "fetch_try (status_answer 404) = Throws (new_Error ''GitHub API error: 404'')"
    by (simp add: fetch_try_def status_answer_def ok_def show_404)
  have "\<not> ok \<lparr>resp_status = 404, resp_json = Returns (GithubData None)\<rparr>"
    by (simp add: ok_def)
  then have permanent: "\<not> isNetworkError (new_Error ''GitHub API error: 404'')"
    using fetchWorkflowRuns_never_throws [of _ _ _ _ _
        "\<lparr>resp_status = 404, resp_json = Returns (GithubData None)\<rparr>"] thrown
    by (auto simp add: status_answer_def)
  with thrown have "fetchWorkflowRuns (always (status_answer 404)) ''a'' ''b'' 3 =
      (Returns [], [FetchAttempt (runs_url ''a'' ''b'') 1])"
    using fetchWorkflowRuns_never_throws [of "always (status_answer 404)" "''a''" "''b''" 3
        "new_Error ''GitHub API error: 404''"]
    by (simp add: always_def)
  with thrown permanent show ?thesis by (simp add: runs_url_def)
qed

text \<open>The timers of the loop: each follows a failed attempt that is retried.\<close>

lemma fetch_loop_backoff_sound:
  "Backoff n d \<in> set (snd (fetch_loop answers own rep retries attempt)) \<Longrightarrow>
   attempt \<le> n \<and> n < retries \<and> d = backoff_delay n \<and>
   (\<exists>err. fetch_try (answers n) = Throws err \<and> isNetworkError err)"
proof (induction answers own rep retries attempt rule: fetch_loop.induct)
  case (1 answers own rep retries attempt)
  show ?case
  proof (cases "fetch_try (answers attempt)")
    case (Returns runs)
    with "1.prems" show ?thesis
      by (subst (asm) fetch_loop.simps) (simp split: if_splits)
  next
    case (Throws err)
    show ?thesis
    proof (cases "attempt \<le> retries \<and> attempt \<noteq> retries \<and> isNetworkError err")
      case True
      obtain r evs where rest: "fetch_loop answers own rep retries (attempt + 1) = (r, evs)"
        by (cases "fetch_loop answers own rep retries (attempt + 1)")
      with True Throws have "fetch_loop answers own rep retries attempt =
          (r, FetchAttempt (runs_url own rep) attempt # Backoff attempt (backoff_delay attempt) # evs)"
        by (subst fetch_loop.simps) simp
      with "1.prems" have "(n = attempt \<and> d = backoff_delay attempt) \<or> Backoff n d \<in> set evs"
        by auto
      then show ?thesis
      proof
        assume "n = attempt \<and> d = backoff_delay attempt"
        with True Throws show ?thesis by auto
      next
        assume "Backoff n d \<in> set evs"
        with rest have "Backoff n d \<in> set (snd (fetch_loop answers own rep retries (attempt + 1)))"
          by simp
        with "1.IH" [OF _ Throws] True
        have "attempt + 1 \<le> n \<and> n < retries \<and> d = backoff_delay n \<and>
            (\<exists>err. fetch_try (answers n) = Throws err \<and> isNetworkError err)"
          by simp
        then show ?thesis by simp
      qed
    next
      case False
      with Throws "1.prems" show ?thesis
        by (subst (asm) fetch_loop.simps) (auto split: if_splits)
    qed
  qed
qed

lemma fetch_loop_backoff_complete:
  "attempt \<le> n \<Longrightarrow> n < retries \<Longrightarrow>
   (\<forall>k. attempt \<le> k \<and> k \<le> n \<longrightarrow> (\<exists>err. fetch_try (answers k) = Throws err \<and> isNetworkError err)) \<Longrightarrow>
   Backoff n (backoff_delay n) \<in> set (snd (fetch_loop answers own rep retries attempt))"
proof (induction answers own rep retries attempt rule: fetch_loop.induct)
  case (1 answers own rep retries attempt)
  from "1.prems" obtain err where err: "fetch_try (answers attempt) = Throws err"
    and net: "isNetworkError err" by auto
  from "1.prems" have le: "attempt \<le> retries" and ne: "attempt \<noteq> retries" by simp_all
  obtain r evs where rest: "fetch_loop answers own rep retries (attempt + 1) = (r, evs)"
    by (cases "fetch_loop answers own rep retries (attempt + 1)")
  with err net le ne have unfolded: "fetch_loop answers own rep retries attempt =
      (r, FetchAttempt (runs_url own rep) attempt # Backoff attempt (backoff_delay attempt) # evs)"
    by (subst fetch_loop.simps) simp
  show ?case
  proof (cases "n = attempt")
    case True
    with unfolded show ?thesis by simp
  next
    case False
    with "1.prems" have "attempt + 1 \<le> n" by simp
    moreover have "\<forall>k. attempt + 1 \<le> k \<and> k \<le> n \<longrightarrow>
        (\<exists>err. fetch_try (answers k) = Throws err \<and> isNetworkError err)"
      using "1.prems"(3) by simp
    ultimately have "Backoff n (backoff_delay n) \<in>
        set (snd (fetch_loop answers own rep retries (attempt + 1)))"
      using "1.IH" [OF le err ne net] "1.prems"(2) by simp
    with rest unfolded show ?thesis by simp
  qed
qed

lemma backoff_delay_values:
  "backoff_delay 1 = 1000" "backoff_delay 2 = 2000" "backoff_delay m \<le> 30000"
  by (simp_all add: backoff_delay_def)

lemma backoff_delay_cap: "6 \<le> m \<Longrightarrow> backoff_delay m = 30000"
proof -
  assume "6 \<le> m"
  then have "(2::nat) ^ 5 \<le> 2 ^ (m - 1)" by (intro power_increasing) simp_all
  then have "(30000::nat) \<le> 1000 * 2 ^ (m - 1)" by simp
  then show ?thesis by (simp add: backoff_delay_def)
qed

text \<open>
  Claim C8. Every backoff of a call follows an attempt \<open>n\<close> that failed with a network
  error and is not the last one allowed, and its delay is \<open>min (1000 * 2 ^ (n - 1)) 30000\<close>
  milliseconds; conversely, when the attempts \<open>1\<close> to \<open>n\<close> all fail with network errors and
  \<open>n\<close> is below \<open>retries\<close>, the call waits that long after attempt \<open>n\<close>. The delay is 1000
  after attempt 1, 2000 after attempt 2, never above 30000, and 30000 from attempt 6 on.
\<close>

theorem backoff_delay_is_capped_exponential:
  "(Backoff n d \<in> set (snd (fetchWorkflowRuns answers own rep retries)) \<longrightarrow>
      1 \<le> n \<and> n < retries \<and> d = min (1000 * 2 ^ (n - 1)) 30000 \<and>
      (\<exists>err. fetch_try (answers n) = Throws err \<and> isNetworkError err)) \<and>
   (1 \<le> n \<and> n < retries \<and>
    (\<forall>k. 1 \<le> k \<and> k \<le> n \<longrightarrow> (\<exists>err. fetch_try (answers k) = Throws err \<and> isNetworkError err)) \<longrightarrow>
      Backoff n (min (1000 * 2 ^ (n - 1)) 30000) \<in>
        set (snd (fetchWorkflowRuns answers own rep retries))) \<and>
   backoff_delay 1 = 1000 \<and> backoff_delay 2 = 2000 \<and>
   (6 \<le> m \<longrightarrow> backoff_delay m = 30000) \<and> backoff_delay m \<le> 30000"
proof (intro conjI impI)
  assume "Backoff n d \<in> set (snd (fetchWorkflowRuns answers own rep retries))"
  then have *: "1 \<le> n \<and> n < retries \<and> d = backoff_delay n \<and>
      (\<exists>err. fetch_try (answers n) = Throws err \<and> isNetworkError err)"
    unfolding fetchWorkflowRuns_def by (rule fetch_loop_backoff_sound)
  then show "1 \<le> n" and "n < retries"
    and "\<exists>err. fetch_try (answers n) = Throws err \<and> isNetworkError err"
    by simp_all
  from * show "d = min (1000 * 2 ^ (n - 1)) 30000" by (simp add: backoff_delay_def)
next
  assume a: "1 \<le> n \<and> n < retries \<and>
    (\<forall>k. 1 \<le> k \<and> k \<le> n \<longrightarrow> (\<exists>err. fetch_try (answers k) = Throws err \<and> isNetworkError err))"
  then have "Backoff n (backoff_delay n) \<in> set (snd (fetch_loop answers own rep retries 1))"
    by (intro fetch_loop_backoff_complete) simp_all
  then show "Backoff n (min (1000 * 2 ^ (n - 1)) 30000) \<in>
      set (snd (fetchWorkflowRuns answers own rep retries))"
    by (simp add: fetchWorkflowRuns_def backoff_delay_def)
next
  assume "6 \<le> m"
  then show "backoff_delay m = 30000" by (rule backoff_delay_cap)
qed (rule backoff_delay_values)+

lemma fetch_two_failures_then_runs:
  "fetchWorkflowRuns (in_turn [Throws fetch_failed, Throws fetch_failed] (runs_answer runs)) ''a'' ''b'' 3 =
     (Returns runs,
      [FetchAttempt ''https://api.github.com/repos/a/b/actions/runs'' 1, Backoff 1 1000,
       FetchAttempt ''https://api.github.com/repos/a/b/actions/runs'' 2, Backoff 2 2000,
       FetchAttempt ''https://api.github.com/repos/a/b/actions/runs'' 3])"
  by (simp add: fetchWorkflowRuns_def fetch_loop.simps in_turn_def runs_answer_def fetch_try_def
      ok_def fetch_failed_def new_TypeError_def isNetworkError_def backoff_delay_def runs_url_def)

theorem backoff_delay_is_capped_exponential_witness:
  "fetchWorkflowRuns
      (in_turn [Throws fetch_failed, Throws fetch_failed] (runs_answer [a_run 1 ''queued'' None]))
      ''a'' ''b'' 3 =
     (Returns [a_run 1 ''queued'' None],
      [FetchAttempt ''https://api.github.com/repos/a/b/actions/runs'' 1, Backoff 1 1000,
       FetchAttempt ''https://api.github.com/repos/a/b/actions/runs'' 2, Backoff 2 2000,
       FetchAttempt ''https://api.github.com/repos/a/b/actions/runs'' 3]) \<and>
   (1000::nat) = min (1000 * 2 ^ (1 - 1)) 30000 \<and>
   (2000::nat) = min (1000 * 2 ^ (2 - 1)) 30000 \<and>
   backoff_delay 6 = 30000 \<and> backoff_delay 9 = 30000"
  using backoff_delay_is_capped_exponential [of 1 1000
      "in_turn [Throws fetch_failed, Throws fetch_failed] (runs_answer [a_run 1 ''queued'' None])"
      "''a''" "''b''" 3 6]
    backoff_delay_is_capped_exponential [of 2 2000
      "in_turn [Throws fetch_failed, Throws fetch_failed] (runs_answer [a_run 1 ''queued'' None])"
      "''a''" "''b''" 3 9]
  by (simp add: fetch_two_failures_then_runs)

subsection \<open>The resolver\<close>

text \<open>
  What an anchored match needs: the literal at the head, a first segment closed by a
  slash, and one more character that is not a slash.
\<close>

lemma strip_literal_append: "strip_literal p (p @ r) = Some r"
  by (induction p) simp_all

lemma strip_literal_Some: "strip_literal p s = Some r \<Longrightarrow> s = p @ r"
  by (induction p s rule: strip_literal.induct) (simp_all split: if_splits)

lemma regex_at_prefix: "regex_at s = Some i \<Longrightarrow> prefix ''github.com/'' s"
proof -
  assume "regex_at s = Some i"
  then obtain r where "strip_literal ''github.com/'' s = Some r"
    by (auto simp add: regex_at_def split: option.splits)
  then have "s = ''github.com/'' @ r" by (rule strip_literal_Some)
  then show ?thesis by (metis prefixI)
qed

lemma slash_free: "CHR ''/'' \<notin> set x \<Longrightarrow> \<forall>c\<in>set x. nonslash c"
  by (auto simp add: nonslash_def)

lemma takeWhile_nonslash_segment:
  assumes "CHR ''/'' \<notin> set x" and "rest = [] \<or> hd rest = CHR ''/''"
  shows "takeWhile nonslash (x @ rest) = x"
proof (cases rest)
  case Nil
  with slash_free [OF assms(1)] show ?thesis by simp
next
  case (Cons c cs)
  with assms(2) have "\<not> nonslash c" by (simp add: nonslash_def)
  with Cons slash_free [OF assms(1)] show ?thesis by (simp add: takeWhile_tail)
qed

lemma dropWhile_nonslash_segment:
  assumes "CHR ''/'' \<notin> set x"
  shows "dropWhile nonslash (x @ CHR ''/'' # rest) = CHR ''/'' # rest"
  using slash_free [OF assms] by (simp add: nonslash_def dropWhile_append3)

lemma regex_at_hit:
  assumes "own \<noteq> []" and "CHR ''/'' \<notin> set own" and "rep \<noteq> []" and "CHR ''/'' \<notin> set rep"
    and "rest = [] \<or> hd rest = CHR ''/''"
  shows "regex_at (''github.com/'' @ own @ ''/'' @ rep @ rest) = Some \<lparr>owner = own, repo = rep\<rparr>"
proof -
  have 1: "strip_literal ''github.com/'' (''github.com/'' @ own @ ''/'' @ rep @ rest) =
      Some (own @ CHR ''/'' # rep @ rest)"
    using strip_literal_append [of "''github.com/''" "own @ ''/'' @ rep @ rest"] by simp
  have 2: "takeWhile nonslash (own @ CHR ''/'' # rep @ rest) = own"
    using assms(2) by (intro takeWhile_nonslash_segment) simp_all
  have 3: "dropWhile nonslash (own @ CHR ''/'' # rep @ rest) = CHR ''/'' # rep @ rest"
    using assms(2) by (rule dropWhile_nonslash_segment)
  have 4: "takeWhile nonslash (rep @ rest) = rep"
    using assms(4,5) by (rule takeWhile_nonslash_segment)
  show ?thesis
    unfolding regex_at_def 1 using assms(1,3) by (simp add: 2 3 4)
qed

lemma regex_at_short_rest:
  "strip_literal ''github.com/'' s = Some r \<Longrightarrow>
   dropWhile nonslash r = [] \<or> dropWhile nonslash r = ''/'' \<Longrightarrow> regex_at s = None"
  by (elim disjE) (simp_all add: regex_at_def Let_def del: dropWhile_eq_Nil_conv)

lemma regex_at_no_repo:
  assumes "CHR ''/'' \<notin> set own" and "z = [] \<or> z = ''/''"
  shows "regex_at (''github.com/'' @ own @ z) = None"
proof -
  have 1: "strip_literal ''github.com/'' (''github.com/'' @ own @ z) = Some (own @ z)"
    by (rule strip_literal_append)
  from assms(2) have "dropWhile nonslash (own @ z) = [] \<or> dropWhile nonslash (own @ z) = ''/''"
  proof
    assume "z = []"
    then have "dropWhile nonslash (own @ z) = dropWhile nonslash own" by simp
    also have "\<dots> = []" using slash_free [OF assms(1)] by simp
    finally show ?thesis by simp
  next
    assume "z = ''/''"
    then have "dropWhile nonslash (own @ z) = dropWhile nonslash (own @ CHR ''/'' # [])" by simp
    also have "\<dots> = ''/''" using assms(1) by (rule dropWhile_nonslash_segment)
    finally show ?thesis by simp
  qed
  with 1 show ?thesis by (rule regex_at_short_rest)
qed

lemma regex_at_other_head: "c \<noteq> CHR ''g'' \<Longrightarrow> regex_at (c # cs) = None"
  by (simp add: regex_at_def)

lemma extractRepoInfo_past_host:
  "extractRepoInfo (''github.com/'' @ y) =
     (case regex_at (''github.com/'' @ y) of Some m \<Rightarrow> Some m | None \<Rightarrow> extractRepoInfo y)"
proof -
  have "extractRepoInfo (''ithub.com/'' @ y) = extractRepoInfo y"
    by (simp add: regex_at_other_head)
  then show ?thesis by (simp split: option.split)
qed

lemma regex_at_two_slashes:
  assumes "regex_at s = Some i"
  shows "2 \<le> count_list s (CHR ''/'')"
proof -
  from assms obtain r where r: "strip_literal ''github.com/'' s = Some r"
    by (auto simp add: regex_at_def split: option.splits)
  with assms obtain c r' where d: "dropWhile nonslash r = c # r'"
    by (auto simp add: regex_at_def Let_def split: if_splits list.splits)
  then have "\<not> nonslash c" using hd_dropWhile [of nonslash r] by auto
  then have c: "c = CHR ''/''" by (simp add: nonslash_def)
  have "r = takeWhile nonslash r @ dropWhile nonslash r" by simp
  with d c have "r = takeWhile nonslash r @ CHR ''/'' # r'" by simp
  then have "1 \<le> count_list r (CHR ''/'')"
    by (metis count_list_append count_list.simps(2) le_add2 le_trans)
  moreover from r have "s = ''github.com/'' @ r" by (rule strip_literal_Some)
  ultimately show ?thesis by simp
qed

lemma few_slashes_no_match: "count_list s (CHR ''/'') < 2 \<Longrightarrow> extractRepoInfo s = None"
proof (induction s)
  case Nil
  then show ?case by (simp add: regex_at_def)
next
  case (Cons c cs)
  have "regex_at (c # cs) = None"
  proof (cases "regex_at (c # cs)")
    case (Some i)
    then have "2 \<le> count_list (c # cs) (CHR ''/'')" by (rule regex_at_two_slashes)
    with Cons.prems show ?thesis by simp
  qed simp
  moreover from Cons.prems have "count_list cs (CHR ''/'') < 2" by (simp split: if_splits)
  ultimately show ?case using Cons.IH by simp
qed

lemma count_slash_free: "CHR ''/'' \<notin> set x \<Longrightarrow> count_list x (CHR ''/'') = 0"
  by (simp add: count_list_0_iff)

lemma no_host_no_match: "\<not> js_includes s ''github.com/'' \<Longrightarrow> extractRepoInfo s = None"
proof (induction s)
  case Nil
  then show ?case by (simp add: regex_at_def)
next
  case (Cons c cs)
  have "regex_at (c # cs) = None"
  proof (cases "regex_at (c # cs)")
    case (Some i)
    then have "prefix ''github.com/'' (c # cs)" by (rule regex_at_prefix)
    with Cons.prems show ?thesis by simp
  qed simp
  with Cons show ?case by simp
qed

text \<open>
  An occurrence of the literal cannot start inside a prefix that does not contain it and
  run over into the next occurrence: its slash would fall on a character of \<open>github.com\<close>.
\<close>

lemma host_not_overlapping:
  assumes "t \<noteq> []" and "prefix ''github.com/'' (t @ ''github.com/'' @ x)"
  shows "prefix ''github.com/'' t"
proof -
  from assms(2) obtain y where y: "t @ ''github.com/'' @ x = ''github.com/'' @ y"
    by (auto elim: prefixE)
  have tw: "takeWhile nonslash (''github.com/'' @ w) = ''github.com''" for w
    by (simp add: nonslash_def)
  show ?thesis
  proof (cases "\<forall>c\<in>set t. nonslash c")
    case True
    then have "takeWhile nonslash (t @ ''github.com/'' @ x) = t @ takeWhile nonslash (''github.com/'' @ x)"
      by (intro takeWhile_append2) simp
    with y tw have "t @ ''github.com'' = ''github.com''" by simp
    with assms(1) show ?thesis by simp
  next
    case False
    then obtain c where "c \<in> set t" and "\<not> nonslash c" by blast
    then have "takeWhile nonslash (t @ ''github.com/'' @ x) = takeWhile nonslash t"
      by (rule takeWhile_append1)
    with y tw have t1: "takeWhile nonslash t = ''github.com''" by simp
    have "dropWhile nonslash t \<noteq> []" using False by simp
    then obtain d ds where d: "dropWhile nonslash t = d # ds" by (cases "dropWhile nonslash t") auto
    then have "\<not> nonslash d" using hd_dropWhile [of nonslash t] by auto
    then have "d = CHR ''/''" by (simp add: nonslash_def)
    with d t1 have "t = ''github.com'' @ CHR ''/'' # ds"
      using takeWhile_dropWhile_id [of nonslash t] by simp
    then show ?thesis by (simp add: prefix_def)
  qed
qed

lemma extractRepoInfo_skip:
  "\<not> js_includes pre ''github.com/'' \<Longrightarrow>
   extractRepoInfo (pre @ ''github.com/'' @ x) = extractRepoInfo (''github.com/'' @ x)"
proof (induction pre)
  case Nil
  then show ?case by simp
next
  case (Cons c cs)
  have "regex_at ((c # cs) @ ''github.com/'' @ x) = None"
  proof (cases "regex_at ((c # cs) @ ''github.com/'' @ x)")
    case (Some i)
    then have "prefix ''github.com/'' ((c # cs) @ ''github.com/'' @ x)" by (rule regex_at_prefix)
    then have "c # cs \<noteq> [] \<Longrightarrow> prefix ''github.com/'' (c # cs)"
      by (rule host_not_overlapping [rotated])
    then have "prefix ''github.com/'' (c # cs)" by blast
    with Cons.prems show ?thesis by simp
  qed simp
  moreover from Cons.prems have "\<not> js_includes cs ''github.com/''" by simp
  ultimately show ?case using Cons.IH by simp
qed

text \<open>
  Claim C6, as amended. An identifier made of a prefix that does not contain
  \<open>github.com/\<close> (a scheme, or nothing), then \<open>github.com/\<close>, an owner, a slash, a repo, and
  then nothing or further segments that start with a slash, owner and repo being non-empty
  and free of slashes, resolves to that owner and that repo. With such a prefix, an
  identifier that ends after \<open>github.com/\<close> and one segment, with or without a trailing
  slash (the segment may be empty), resolves to nothing. An identifier that does not
  contain \<open>github.com/\<close> at all resolves to nothing. The function is total: the result is
  a value for every string. Nothing is said of an identifier whose host merely ends in
  \<open>github.com\<close> or whose path contains \<open>github.com/\<close>: the expression has no anchor.
\<close>

theorem extractRepoInfo_resolves:
  "(\<not> js_includes pre ''github.com/'' \<and> own \<noteq> [] \<and> CHR ''/'' \<notin> set own \<and>
    rep \<noteq> [] \<and> CHR ''/'' \<notin> set rep \<and> (rest = [] \<or> hd rest = CHR ''/'') \<longrightarrow>
      extractRepoInfo (pre @ ''github.com/'' @ own @ ''/'' @ rep @ rest) =
        Some \<lparr>owner = own, repo = rep\<rparr>) \<and>
   (\<not> js_includes pre ''github.com/'' \<and> CHR ''/'' \<notin> set seg \<and> (z = [] \<or> z = ''/'') \<longrightarrow>
      extractRepoInfo (pre @ ''github.com/'' @ seg @ z) = None) \<and>
   (\<not> js_includes s ''github.com/'' \<longrightarrow> extractRepoInfo s = None)"
proof (intro conjI impI)
  assume a: "\<not> js_includes pre ''github.com/'' \<and> own \<noteq> [] \<and> CHR ''/'' \<notin> set own \<and>
    rep \<noteq> [] \<and> CHR ''/'' \<notin> set rep \<and> (rest = [] \<or> hd rest = CHR ''/'')"
  then have hit: "regex_at (''github.com/'' @ own @ ''/'' @ rep @ rest) =
      Some \<lparr>owner = own, repo = rep\<rparr>"
    by (intro regex_at_hit) simp_all
  from a have "extractRepoInfo (pre @ ''github.com/'' @ own @ ''/'' @ rep @ rest) =
      extractRepoInfo (''github.com/'' @ own @ ''/'' @ rep @ rest)"
    by (intro extractRepoInfo_skip) simp
  also have "\<dots> = Some \<lparr>owner = own, repo = rep\<rparr>"
    by (subst extractRepoInfo_past_host) (simp only: hit option.case)
  finally show "extractRepoInfo (pre @ ''github.com/'' @ own @ ''/'' @ rep @ rest) =
      Some \<lparr>owner = own, repo = rep\<rparr>" .
next
  assume a: "\<not> js_includes pre ''github.com/'' \<and> CHR ''/'' \<notin> set seg \<and> (z = [] \<or> z = ''/'')"
  then have miss: "regex_at (''github.com/'' @ seg @ z) = None"
    by (intro regex_at_no_repo) simp_all
  from a have "count_list (seg @ z) (CHR ''/'') < 2"
    by (auto simp add: count_slash_free)
  then have none: "extractRepoInfo (seg @ z) = None" by (rule few_slashes_no_match)
  from a have "extractRepoInfo (pre @ ''github.com/'' @ seg @ z) =
      extractRepoInfo (''github.com/'' @ seg @ z)"
    by (intro extractRepoInfo_skip) simp
  also have "\<dots> = None"
    by (subst extractRepoInfo_past_host) (simp only: miss none option.case)
  finally show "extractRepoInfo (pre @ ''github.com/'' @ seg @ z) = None" .
next
  assume "\<not> js_includes s ''github.com/''"
  then show "extractRepoInfo s = None" by (rule no_host_no_match)
qed

theorem extractRepoInfo_resolves_witness:
  "extractRepoInfo ''https://github.com/facebook/react/tree/main'' =
     Some \<lparr>owner = ''facebook'', repo = ''react''\<rparr> \<and>
   extractRepoInfo ''github.com/microsoft/vscode'' =
     Some \<lparr>owner = ''microsoft'', repo = ''vscode''\<rparr> \<and>
   extractRepoInfo ''https://github.com/user'' = None \<and>
   extractRepoInfo ''https://github.com/user/'' = None \<and>
   extractRepoInfo ''https://github.com/'' = None \<and>
   extractRepoInfo ''https://gitlab.com/user/repo'' = None"
  using extractRepoInfo_resolves [of "''https://''" "''facebook''" "''react''" "''/tree/main''"
      "''user''" "[]" "''https://gitlab.com/user/repo''"]
    extractRepoInfo_resolves [of "[]" "''microsoft''" "''vscode''" "[]" "[]" "[]" "[]"]
    extractRepoInfo_resolves [of "''https://''" "''a''" "''b''" "[]" "''user''" "''/''" "[]"]
    extractRepoInfo_resolves [of "''https://''" "''a''" "''b''" "[]" "[]" "[]" "[]"]
  by simp

text \<open>
  The claim as it was stated fails for identifiers of another host: the host
  \<open>notgithub.com\<close> is not \<open>github.com\<close>, and the identifier resolves; so does an identifier
  of the host \<open>example.org\<close> whose path goes on with \<open>github.com/a/b\<close>.
\<close>

theorem extractRepoInfo_accepts_other_hosts:
  "''notgithub.com'' \<noteq> ''github.com'' \<and>
   extractRepoInfo (''https://'' @ ''notgithub.com'' @ ''/'' @ ''a'' @ ''/'' @ ''b'') =
     Some \<lparr>owner = ''a'', repo = ''b''\<rparr> \<and>
   ''example.org'' \<noteq> ''github.com'' \<and>
   extractRepoInfo (''https://'' @ ''example.org'' @ ''/'' @ ''github.com'' @ ''/'' @ ''a'' @ ''/'' @ ''b'') =
     Some \<lparr>owner = ''a'', repo = ''b''\<rparr>"
  by (simp add: regex_at_def nonslash_def)

subsection \<open>The polling cycle\<close>

text \<open>
  No exception leaves an iteration, the loop or \<open>checkWorkflows\<close>: one repository cannot
  end the cycle for the others. With the network down the cycle does nothing; with a
  single source it is the probe followed by that source's iteration.
\<close>

lemma trackLatestRun_returns: "fst (trackLatestRun giphy key R ws) = Returns ()"
proof -
  obtain g where "getRandomGif ''lets get started'' giphy = Returns g"
    using getRandomGif_returns by blast
  then have 1: "fst (notify ''lets get started'' giphy) = Returns ()"
    by (simp add: notify_returns)
  obtain g' where "getRandomGif ''success'' giphy = Returns g'"
    using getRandomGif_returns by blast
  then have 2: "fst (notify ''success'' giphy) = Returns ()"
    by (simp add: notify_returns)
  obtain g'' where "getRandomGif ''failure'' giphy = Returns g''"
    using getRandomGif_returns by blast
  then have 3: "fst (notify ''failure'' giphy) = Returns ()"
    by (simp add: notify_returns)
  from 1 2 3 show ?thesis
    by (auto simp add: trackLatestRun_def Let_def split: option.split prod.split outcome.split)
qed

lemma checkSource_returns: "fst (checkSource github giphy src ws) = Returns ()"
proof (cases "extractRepoInfo (url src)")
  case None
  then show ?thesis by (simp add: checkSource_def)
next
  case (Some i)
  obtain r evs where f: "fetchWorkflowRuns github (owner i) (repo i) 3 = (r, evs)"
    by (cases "fetchWorkflowRuns github (owner i) (repo i) 3")
  moreover obtain runs where "fst (fetchWorkflowRuns github (owner i) (repo i) 3) = Returns runs"
    unfolding fetchWorkflowRuns_def using fetch_loop_returns by blast
  ultimately have r: "r = Returns runs" by simp
  show ?thesis
  proof (cases runs)
    case Nil
    with Some f r show ?thesis by (simp add: checkSource_def)
  next
    case (Cons latestRun older)
    with Some f r trackLatestRun_returns [of giphy "sourceKey i" latestRun ws] show ?thesis
      by (auto simp add: checkSource_def split: prod.split)
  qed
qed

lemma check_loop_returns: "fst (check_loop env i srcs ws) = Returns ()"
proof (induction srcs arbitrary: i ws)
  case Nil
  then show ?case by simp
next
  case (Cons src rest)
  obtain r ws' evs
    where c: "checkSource (github_answers env i) (giphy_answers env i) src ws = (r, ws', evs)"
    by (cases "checkSource (github_answers env i) (giphy_answers env i) src ws")
  with checkSource_returns [of "github_answers env i" "giphy_answers env i" src ws]
  have "r = Returns ()" by simp
  with c Cons.IH [of "Suc i" ws'] show ?case by (auto split: prod.split)
qed

lemma checkWorkflows_returns: "fst (checkWorkflows env st) = Returns ()"
  using check_loop_returns [of env 0 "sources st" "workflowStates st"]
  by (auto simp add: checkWorkflows_def split: prod.split)

lemma checkWorkflows_offline:
  "\<not> isNetworkAvailable (probe_answer env) \<Longrightarrow> checkWorkflows env st = (Returns (), st, [ProbeNetwork])"
  by (simp add: checkWorkflows_def)

lemma checkWorkflows_single:
  assumes "isNetworkAvailable (probe_answer env)"
    and "sources st = [src]"
    and "checkSource (github_answers env 0) (giphy_answers env 0) src (workflowStates st) = (r, ws, evs)"
  shows "checkWorkflows env st = (r, st\<lparr>workflowStates := ws\<rparr>, ProbeNetwork # evs)"
proof -
  from assms(3) checkSource_returns [of "github_answers env 0" "giphy_answers env 0" src "workflowStates st"]
  have "r = Returns ()" by simp
  with assms show ?thesis by (simp add: checkWorkflows_def)
qed

end
